theory Spec2Isabelle
  imports Complex_Main "HOL-Library.Log_Nat"
begin

section \<open>Python's float: IEEE 754 binary64 with round-to-nearest-even\<close>

text \<open>
  The estimator of \<^verbatim>\<open>main.py\<close> computes with Python floats, which are IEEE 754 binary64
  numbers. A finite double is represented by its exact rational value; the infinities and
  NaN are separate constructors. The two zeros \<open>0.0\<close> and \<open>-0.0\<close> are identified: they compare
  equal, and the program has no operation that tells them apart (it divides by non-zero
  literals only, and \<open>max(0, x)\<close> returns the integer \<open>0\<close> for both).

  Every arithmetic operation returns the exact result rounded to the nearest double, ties to
  the even significand. A double has a 53-bit significand; in the binade \<open>2^e \<le> |r| < 2^(e+1)\<close>
  the doubles are the multiples of \<open>2^(e-52)\<close>, and below \<open>2^-1022\<close> (the subnormal range) the
  multiples of \<open>2^-1074\<close>. A result that rounds to \<open>2^1024\<close> or beyond is an infinity.
\<close>

datatype double = Finite rat | PInf | NInf | NaN

text \<open>Rounding a rational to the nearest integer, ties to even (also Python's \<open>round(x)\<close>).\<close>

definition rhe :: "rat \<Rightarrow> int" where
  "rhe x = (let f = \<lfloor>x\<rfloor>; d = x - of_int f in
     if d < 1 / 2 then f else if 1 / 2 < d then f + 1 else if even f then f else f + 1)"

text \<open>The binary exponent of a positive rational: \<open>2^(ilog2 r) \<le> r < 2^(ilog2 r + 1)\<close>.\<close>

definition ilog2 :: "rat \<Rightarrow> int" where
  "ilog2 r = (if 1 \<le> r then bitlen \<lfloor>r\<rfloor> - 1 else - bitlen (\<lceil>1 / r\<rceil> - 1))"

text \<open>The exponent of the binade of a double, at least that of the smallest normal number.\<close>

definition expo :: "rat \<Rightarrow> int" where
  "expo r = max (ilog2 \<bar>r\<bar>) (- 1022)"

text \<open>The distance between neighbouring doubles around \<open>r\<close>.\<close>

definition quantum :: "rat \<Rightarrow> rat" where
  "quantum r = 2 powi (expo r - 52)"

text \<open>Rounding to 53 bits with the exponent unbounded above.\<close>

definition rnd_val :: "rat \<Rightarrow> rat" where
  "rnd_val r = (if r = 0 then 0 else of_int (rhe (r / quantum r)) * quantum r)"

text \<open>Rounding to a double: overflow gives an infinity.\<close>

definition rnd :: "rat \<Rightarrow> double" where
  "rnd r = (let v = rnd_val r in
     if 2 ^ 1024 \<le> v then PInf else if v \<le> - (2 ^ 1024) then NInf else Finite v)"

fun fneg :: "double \<Rightarrow> double" where
  "fneg (Finite a) = Finite (- a)"
| "fneg PInf = NInf"
| "fneg NInf = PInf"
| "fneg NaN = NaN"

fun fabs :: "double \<Rightarrow> double" where
  "fabs (Finite a) = Finite \<bar>a\<bar>"
| "fabs PInf = PInf"
| "fabs NInf = PInf"
| "fabs NaN = NaN"

fun fadd :: "double \<Rightarrow> double \<Rightarrow> double" where
  "fadd (Finite a) (Finite b) = rnd (a + b)"
| "fadd NaN y = NaN"
| "fadd x NaN = NaN"
| "fadd PInf NInf = NaN"
| "fadd NInf PInf = NaN"
| "fadd PInf y = PInf"
| "fadd NInf y = NInf"
| "fadd x PInf = PInf"
| "fadd x NInf = NInf"

definition fsub :: "double \<Rightarrow> double \<Rightarrow> double" where
  "fsub x y = fadd x (fneg y)"

definition inf_of_sign :: "bool \<Rightarrow> double" where
  "inf_of_sign negative = (if negative then NInf else PInf)"

fun fmul :: "double \<Rightarrow> double \<Rightarrow> double" where
  "fmul (Finite a) (Finite b) = rnd (a * b)"
| "fmul NaN y = NaN"
| "fmul x NaN = NaN"
| "fmul (Finite a) PInf = (if a = 0 then NaN else inf_of_sign (a < 0))"
| "fmul (Finite a) NInf = (if a = 0 then NaN else inf_of_sign (0 < a))"
| "fmul PInf (Finite b) = (if b = 0 then NaN else inf_of_sign (b < 0))"
| "fmul NInf (Finite b) = (if b = 0 then NaN else inf_of_sign (0 < b))"
| "fmul PInf PInf = PInf"
| "fmul PInf NInf = NInf"
| "fmul NInf PInf = NInf"
| "fmul NInf NInf = PInf"

text \<open>What Python raises in the arithmetic used here.\<close>

datatype py_error = ZeroDivisionError | OverflowError | ValueError

text \<open>Float division: Python raises \<open>ZeroDivisionError\<close> for a zero divisor, whatever the dividend.\<close>

fun fdiv :: "double \<Rightarrow> double \<Rightarrow> py_error + double" where
  "fdiv x (Finite b) =
     (if b = 0 then Inl ZeroDivisionError
      else case x of
        Finite a \<Rightarrow> Inr (rnd (a / b))
      | PInf \<Rightarrow> Inr (inf_of_sign (b < 0))
      | NInf \<Rightarrow> Inr (inf_of_sign (0 < b))
      | NaN \<Rightarrow> Inr NaN)"
| "fdiv x NaN = Inr NaN"
| "fdiv (Finite a) y = Inr (Finite 0)"
| "fdiv NaN y = Inr NaN"
| "fdiv x y = Inr NaN"

text \<open>Comparisons: every comparison with NaN is false.\<close>

fun flt :: "double \<Rightarrow> double \<Rightarrow> bool" where
  "flt (Finite a) (Finite b) = (a < b)"
| "flt NaN y = False"
| "flt x NaN = False"
| "flt x NInf = False"
| "flt PInf y = False"
| "flt x PInf = True"
| "flt NInf y = True"

fun feq :: "double \<Rightarrow> double \<Rightarrow> bool" where
  "feq NaN y = False"
| "feq x NaN = False"
| "feq x y = (x = y)"

definition fle :: "double \<Rightarrow> double \<Rightarrow> bool" where
  "fle x y = (flt x y \<or> feq x y)"

section \<open>Python numbers: int and float\<close>

text \<open>
  The source mixes integer literals with floats (\<open>inp.tilt - 30\<close>, \<open>max(0, dailyKWh)\<close>,
  \<open>min(100, ...)\<close>). An arithmetic operation on an int and a float converts the int to a float
  first; a comparison of an int with a float compares the exact values; \<open>min\<close> and \<open>max\<close>
  return one of their arguments unchanged, so \<open>max(0, x)\<close> is the int \<open>0\<close> or the float \<open>x\<close>.
\<close>

datatype pynum = PInt int | PFloat double

definition py_bind :: "py_error + 'a \<Rightarrow> ('a \<Rightarrow> py_error + 'b) \<Rightarrow> py_error + 'b" where
  "py_bind m f = (case m of Inl e \<Rightarrow> Inl e | Inr v \<Rightarrow> f v)"

text \<open>Conversion of an int to a float: correctly rounded, \<open>OverflowError\<close> beyond the range.\<close>

definition float_of_int :: "int \<Rightarrow> py_error + double" where
  "float_of_int n = (case rnd (of_int n) of Finite v \<Rightarrow> Inr (Finite v) | _ \<Rightarrow> Inl OverflowError)"

fun to_float :: "pynum \<Rightarrow> py_error + double" where
  "to_float (PInt n) = float_of_int n"
| "to_float (PFloat x) = Inr x"

fun py_add :: "pynum \<Rightarrow> pynum \<Rightarrow> py_error + pynum" where
  "py_add (PInt a) (PInt b) = Inr (PInt (a + b))"
| "py_add x y = py_bind (to_float x) (\<lambda>a. py_bind (to_float y) (\<lambda>b. Inr (PFloat (fadd a b))))"

fun py_sub :: "pynum \<Rightarrow> pynum \<Rightarrow> py_error + pynum" where
  "py_sub (PInt a) (PInt b) = Inr (PInt (a - b))"
| "py_sub x y = py_bind (to_float x) (\<lambda>a. py_bind (to_float y) (\<lambda>b. Inr (PFloat (fsub a b))))"

fun py_mul :: "pynum \<Rightarrow> pynum \<Rightarrow> py_error + pynum" where
  "py_mul (PInt a) (PInt b) = Inr (PInt (a * b))"
| "py_mul x y = py_bind (to_float x) (\<lambda>a. py_bind (to_float y) (\<lambda>b. Inr (PFloat (fmul a b))))"

text \<open>True division \<open>/\<close>: of two ints it is the correctly rounded quotient.\<close>

fun py_truediv :: "pynum \<Rightarrow> pynum \<Rightarrow> py_error + pynum" where
  "py_truediv (PInt a) (PInt b) =
     (if b = 0 then Inl ZeroDivisionError
      else case rnd (of_int a / of_int b) of
        Finite v \<Rightarrow> Inr (PFloat (Finite v))
      | _ \<Rightarrow> Inl OverflowError)"
| "py_truediv x y =
     py_bind (to_float x) (\<lambda>a. py_bind (to_float y) (\<lambda>b. py_bind (fdiv a b) (\<lambda>c. Inr (PFloat c))))"

fun py_abs :: "pynum \<Rightarrow> pynum" where
  "py_abs (PInt a) = PInt \<bar>a\<bar>"
| "py_abs (PFloat x) = PFloat (fabs x)"

fun py_lt :: "pynum \<Rightarrow> pynum \<Rightarrow> bool" where
  "py_lt (PInt a) (PInt b) = (a < b)"
| "py_lt (PInt a) (PFloat y) = flt (Finite (of_int a)) y"
| "py_lt (PFloat x) (PInt b) = flt x (Finite (of_int b))"
| "py_lt (PFloat x) (PFloat y) = flt x y"

fun py_le :: "pynum \<Rightarrow> pynum \<Rightarrow> bool" where
  "py_le (PInt a) (PInt b) = (a \<le> b)"
| "py_le (PInt a) (PFloat y) = fle (Finite (of_int a)) y"
| "py_le (PFloat x) (PInt b) = fle x (Finite (of_int b))"
| "py_le (PFloat x) (PFloat y) = fle x y"

text \<open>
  \<open>max(x, y)\<close> keeps \<open>x\<close> unless \<open>y > x\<close>; \<open>min(x, y)\<close> keeps \<open>x\<close> unless \<open>y < x\<close>.
\<close>

definition py_max :: "pynum \<Rightarrow> pynum \<Rightarrow> pynum" where
  "py_max x y = (if py_lt x y then y else x)"

definition py_min :: "pynum \<Rightarrow> pynum \<Rightarrow> pynum" where
  "py_min x y = (if py_lt y x then y else x)"

text \<open>
  \<open>round(x)\<close> with one argument returns an int: ties to even; it raises \<open>ValueError\<close> for NaN
  and \<open>OverflowError\<close> for an infinity.
\<close>

fun py_round :: "pynum \<Rightarrow> py_error + int" where
  "py_round (PInt n) = Inr n"
| "py_round (PFloat (Finite a)) = Inr (rhe a)"
| "py_round (PFloat NaN) = Inl ValueError"
| "py_round (PFloat x) = Inl OverflowError"

text \<open>A decimal float literal of the source denotes the nearest double.\<close>

definition float_literal :: "rat \<Rightarrow> pynum" where
  "float_literal r = PFloat (rnd r)"

section \<open>The energy estimator\<close>

text \<open>
  \<^verbatim>\<open>
  class EnergyInput(BaseModel):
      tilt: float = Field(25, ge=0, le=90, description="Panel tilt in degrees")
      azimuth: float = Field(180, ge=0, le=360, description="0=N,90=E,180=S,270=W")
      irradiance: float = Field(4.8, ge=0, description="kWh/m^2/day baseline")
      area: float = Field(18, ge=0, description="Array area in m^2")

  class EnergyOutput(BaseModel):
      daily: float
      monthly: float
      score: int
  \<close>
\<close>

record EnergyInput =
  tilt :: double
  azimuth :: double
  irradiance :: double
  area :: double

record EnergyOutput =
  daily :: double
  monthly :: double
  score :: int

text \<open>The constraints \<open>ge\<close> and \<open>le\<close> of the fields are the comparisons \<open>x >= 0\<close>, \<open>x <= 90\<close>.\<close>

definition tilt_ok :: "double \<Rightarrow> bool" where
  "tilt_ok x \<longleftrightarrow> py_le (PInt 0) (PFloat x) \<and> py_le (PFloat x) (PInt 90)"

definition azimuth_ok :: "double \<Rightarrow> bool" where
  "azimuth_ok x \<longleftrightarrow> py_le (PInt 0) (PFloat x) \<and> py_le (PFloat x) (PInt 360)"

definition irradiance_ok :: "double \<Rightarrow> bool" where
  "irradiance_ok x \<longleftrightarrow> py_le (PInt 0) (PFloat x)"

definition area_ok :: "double \<Rightarrow> bool" where
  "area_ok x \<longleftrightarrow> py_le (PInt 0) (PFloat x)"

text \<open>A valid \<open>EnergyInput\<close>: every field satisfies its constraints.\<close>

definition valid_EnergyInput :: "EnergyInput \<Rightarrow> bool" where
  "valid_EnergyInput inp \<longleftrightarrow>
     tilt_ok (tilt inp) \<and> azimuth_ok (azimuth inp) \<and>
     irradiance_ok (irradiance inp) \<and> area_ok (area inp)"

text \<open>
  \<^verbatim>\<open>
  def compute_energy(inp: EnergyInput) -> EnergyOutput:
      tiltFactor = 1 - abs(inp.tilt - 30) / 120  # peak near 30deg
      facingSouthFactor = 1 - min(abs(inp.azimuth - 180), 180) / 240  # peak at south
      k = max(0.5, tiltFactor * 0.9 + facingSouthFactor * 0.6)
      dailyKWh = inp.irradiance * inp.area * 0.18 * k  # ~18% efficiency
      monthlyKWh = dailyKWh * 30
      score = round(min(100, (k / 1.5) * 100))
      return EnergyOutput(daily=max(0, dailyKWh), monthly=max(0, monthlyKWh), score=score)
  \<close>
  The body up to the \<open>return\<close> assigns six local variables; \<open>compute_locals\<close> is that part,
  with every operation that can raise threaded through \<open>py_bind\<close>.
\<close>

record energy_locals =
  tiltFactor :: pynum
  facingSouthFactor :: pynum
  k :: pynum
  dailyKWh :: pynum
  monthlyKWh :: pynum
  score_local :: int

definition compute_locals :: "EnergyInput \<Rightarrow> py_error + energy_locals" where
  "compute_locals inp =
     py_bind (py_sub (PFloat (tilt inp)) (PInt 30)) (\<lambda>t1.
     py_bind (py_truediv (py_abs t1) (PInt 120)) (\<lambda>t2.
     py_bind (py_sub (PInt 1) t2) (\<lambda>tiltFactor.
     py_bind (py_sub (PFloat (azimuth inp)) (PInt 180)) (\<lambda>a1.
     py_bind (py_truediv (py_min (py_abs a1) (PInt 180)) (PInt 240)) (\<lambda>a2.
     py_bind (py_sub (PInt 1) a2) (\<lambda>facingSouthFactor.
     py_bind (py_mul tiltFactor (float_literal (9 / 10))) (\<lambda>k1.
     py_bind (py_mul facingSouthFactor (float_literal (6 / 10))) (\<lambda>k2.
     py_bind (py_add k1 k2) (\<lambda>k3.
     let k = py_max (float_literal (5 / 10)) k3 in
     py_bind (py_mul (PFloat (irradiance inp)) (PFloat (area inp))) (\<lambda>d1.
     py_bind (py_mul d1 (float_literal (18 / 100))) (\<lambda>d2.
     py_bind (py_mul d2 k) (\<lambda>dailyKWh.
     py_bind (py_mul dailyKWh (PInt 30)) (\<lambda>monthlyKWh.
     py_bind (py_truediv k (float_literal (15 / 10))) (\<lambda>s1.
     py_bind (py_mul s1 (PInt 100)) (\<lambda>s2.
     py_bind (py_round (py_min (PInt 100) s2)) (\<lambda>score.
     Inr \<lparr>tiltFactor = tiltFactor, facingSouthFactor = facingSouthFactor, k = k,
          dailyKWh = dailyKWh, monthlyKWh = monthlyKWh, score_local = score\<rparr>
     ))))))))))))))))"

text \<open>
  The \<open>return\<close> statement: the fields \<open>daily\<close> and \<open>monthly\<close> of \<open>EnergyOutput\<close> are floats,
  so the int \<open>0\<close> that \<open>max(0, x)\<close> may return is converted.
\<close>

definition compute_energy :: "EnergyInput \<Rightarrow> py_error + EnergyOutput" where
  "compute_energy inp =
     py_bind (compute_locals inp) (\<lambda>l.
     py_bind (to_float (py_max (PInt 0) (dailyKWh l))) (\<lambda>d.
     py_bind (to_float (py_max (PInt 0) (monthlyKWh l))) (\<lambda>m.
     Inr \<lparr>daily = d, monthly = m, score = score_local l\<rparr>)))"

subsection \<open>The endpoint and the validation of its payload\<close>



definition field :: "double \<Rightarrow> (double \<Rightarrow> bool) \<Rightarrow> double option \<Rightarrow> double option" where
  "field dflt ok v = (case v of None \<Rightarrow> Some dflt | Some x \<Rightarrow> if ok x then Some x else None)"



section \<open>The subscription endpoint\<close>

text \<open>
  \<^verbatim>\<open>
  @app.post("/api/subscribe")
  def subscribe(payload: SubscribeInput):
      try:
          from database import create_document
          doc_id = create_document("subscriber", {"email": payload.email})
          return {"status": "ok", "stored": True, "id": doc_id}
      except Exception:
          return {"status": "ok", "stored": False}
  \<close>
  The module \<open>database\<close> is not part of the program; it is a parameter of the model.
  A Python statement either completes with a value or raises. What it raises is either an
  instance of the class \<open>Exception\<close> (\<open>ImportError\<close> when the module is absent, a driver
  error, ...), which \<open>except Exception\<close> catches, or one of the control signals that derive
  from \<open>BaseException\<close> only (\<open>KeyboardInterrupt\<close>, \<open>SystemExit\<close>), which it lets through.
\<close>

datatype 'a outcome =
    Returns 'a
  | Raises_Exception string
  | Raises_BaseException string



record SubscribeInput =
  email :: string

text \<open>
  The environment of the handler: the outcome of \<open>from database import create_document\<close>,
  which on success binds the function that is then called with the collection name and the
  document.
\<close>

record 'id database_env =
  import_create_document :: "(string \<Rightarrow> (string \<times> string) list \<Rightarrow> 'id outcome) outcome"

text \<open>The body of the \<open>try\<close> block up to the assignment of \<open>doc_id\<close>.\<close>

definition persist :: "'id database_env \<Rightarrow> SubscribeInput \<Rightarrow> 'id outcome" where
  "persist env payload =
     (case import_create_document env of
        Returns create_document \<Rightarrow> create_document ''subscriber'' [(''email'', email payload)]
      | Raises_Exception e \<Rightarrow> Raises_Exception e
      | Raises_BaseException b \<Rightarrow> Raises_BaseException b)"


section \<open>The formula of the specification\<close>

text \<open>
  The specification gives the estimate as seven steps over floating-point numbers:
  \<^enum> \<open>tiltFactor = 1 - |tilt - 30| / 120\<close>
  \<^enum> \<open>facingSouthFactor = 1 - min(|azimuth - 180|, 180) / 240\<close>
  \<^enum> \<open>k = max(0.5, tiltFactor * 0.9 + facingSouthFactor * 0.6)\<close>
  \<^enum> \<open>dailyKWh = irradiance * area * 0.18 * k\<close>
  \<^enum> \<open>monthlyKWh = dailyKWh * 30\<close>
  \<^enum> \<open>score = round(min(100, (k / 1.5) * 100))\<close>
  \<^enum> \<open>daily = max(0, dailyKWh)\<close>, \<open>monthly = max(0, monthlyKWh)\<close>

  Its numbers are all doubles, its \<open>max\<close> and \<open>min\<close> are those of the order on doubles, its
  division has no error (the divisors are constants), and its \<open>round\<close> is defined on finite
  numbers, where it follows the source's rule for ties.
\<close>

definition spec_max :: "double \<Rightarrow> double \<Rightarrow> double" where
  "spec_max x y = (if fle x y then y else x)"

definition spec_min :: "double \<Rightarrow> double \<Rightarrow> double" where
  "spec_min x y = (if fle x y then x else y)"

definition spec_div :: "double \<Rightarrow> double \<Rightarrow> double" where
  "spec_div x y = (case fdiv x y of Inr q \<Rightarrow> q | Inl e \<Rightarrow> NaN)"

definition spec_round :: "double \<Rightarrow> int option" where
  "spec_round x = (case x of Finite r \<Rightarrow> Some (rhe r) | _ \<Rightarrow> None)"

definition spec_energy :: "EnergyInput \<Rightarrow> EnergyOutput option" where
  "spec_energy inp =
     (let tiltFactor' = fsub (Finite 1) (spec_div (fabs (fsub (tilt inp) (Finite 30))) (Finite 120));
          facingSouthFactor' = fsub (Finite 1)
            (spec_div (spec_min (fabs (fsub (azimuth inp) (Finite 180))) (Finite 180)) (Finite 240));
          k' = spec_max (rnd (5 / 10))
            (fadd (fmul tiltFactor' (rnd (9 / 10))) (fmul facingSouthFactor' (rnd (6 / 10))));
          dailyKWh' = fmul (fmul (fmul (irradiance inp) (area inp)) (rnd (18 / 100))) k';
          monthlyKWh' = fmul dailyKWh' (Finite 30)
      in case spec_round (spec_min (Finite 100) (fmul (spec_div k' (rnd (15 / 10))) (Finite 100))) of
           None \<Rightarrow> None
         | Some score' \<Rightarrow>
             Some \<lparr>daily = spec_max (Finite 0) dailyKWh',
                   monthly = spec_max (Finite 0) monthlyKWh', score = score'\<rparr>)"

section \<open>Auxiliary definitions\<close>

text \<open>The doubles denoted by the literals \<open>0.9\<close>, \<open>0.6\<close> and \<open>0.18\<close>.\<close>

definition d0_9 :: rat where "d0_9 = 8106479329266893 / 9007199254740992"
definition d0_6 :: rat where "d0_6 = 5404319552844595 / 9007199254740992"
definition d0_18 :: rat where "d0_18 = 3242591731706757 / 18014398509481984"

text \<open>The smallest positive double, \<open>2^-1074\<close> (Python prints it as \<open>5e-324\<close>).\<close>

definition min_subnormal :: rat where
  "min_subnormal = 1 / 2 ^ 1074"

text \<open>
  The values of the local variables on a valid input, as functions of the rational values of
  \<open>tilt\<close> and \<open>azimuth\<close>: on a valid input no operation before \<open>dailyKWh\<close> overflows.
\<close>

definition tf_r :: "rat \<Rightarrow> rat" where
  "tf_r t = rnd_val (1 - rnd_val (\<bar>rnd_val (t - 30)\<bar> / 120))"

definition dev_r :: "rat \<Rightarrow> rat" where
  "dev_r a = \<bar>rnd_val (a - 180)\<bar>"

definition fs_r :: "rat \<Rightarrow> rat" where
  "fs_r a = rnd_val (1 - rnd_val (dev_r a / 240))"

definition k_r :: "rat \<Rightarrow> rat \<Rightarrow> rat" where
  "k_r t a = rnd_val (rnd_val (tf_r t * d0_9) + rnd_val (fs_r a * d0_6))"

definition pct_r :: "rat \<Rightarrow> rat" where
  "pct_r x = rnd_val (rnd_val (x / (3 / 2)) * 100)"

definition score_r :: "rat \<Rightarrow> int" where
  "score_r x = (if pct_r x < 100 then rhe (pct_r x) else 100)"

definition daily_d :: "double \<Rightarrow> double \<Rightarrow> rat \<Rightarrow> double" where
  "daily_d i ar x = fmul (fmul (fmul i ar) (Finite d0_18)) (Finite x)"

definition clamp0 :: "double \<Rightarrow> double" where
  "clamp0 x = (if flt (Finite 0) x then x else Finite 0)"

definition nonneg_or_nan :: "double \<Rightarrow> bool" where
  "nonneg_or_nan x = (case x of Finite r \<Rightarrow> 0 \<le> r | PInf \<Rightarrow> True | NInf \<Rightarrow> False | NaN \<Rightarrow> True)"


section \<open>Rounding\<close>

lemma rhe_of_int [simp]: "rhe (of_int n) = n"
  by (simp add: rhe_def)

lemma rhe_0 [simp]: "rhe 0 = 0"
  using rhe_of_int [of 0] by simp

lemma rhe_numeral [simp]: "rhe (numeral n) = numeral n"
  using rhe_of_int [of "numeral n"] by simp

lemma rhe_bounds: "of_int (rhe x) \<le> x + 1 / 2" "x - 1 / 2 \<le> of_int (rhe x)"
  unfolding rhe_def Let_def by (auto; linarith)+

lemma rhe_floor: "\<lfloor>x\<rfloor> \<le> rhe x" "rhe x \<le> \<lfloor>x\<rfloor> + 1"
  by (simp_all add: rhe_def Let_def)

lemma rhe_mono: 
  assumes "x \<le> y" shows "rhe x \<le> rhe y"
proof (cases "\<lfloor>x\<rfloor> = \<lfloor>y\<rfloor>")
  case True
  with assms show ?thesis
    unfolding rhe_def Let_def by auto
next
  case False
  with assms have "\<lfloor>x\<rfloor> + 1 \<le> \<lfloor>y\<rfloor>"
    using floor_mono [of x y] by linarith
  with rhe_floor(2) [of x] rhe_floor(1) [of y] show ?thesis
    by linarith
qed

lemma rhe_minus: "rhe (- x) = - rhe x"
proof (cases "x = of_int \<lfloor>x\<rfloor>")
  case True
  then obtain n where "x = of_int n" ..
  then have "rhe (- x) = rhe (of_int (- n))" "rhe x = n"
    by simp_all
  then show ?thesis
    by (simp only: rhe_of_int)
next
  case False
  then have f: "\<lfloor>- x\<rfloor> = - \<lfloor>x\<rfloor> - 1"
    by (simp add: floor_minus ceiling_altdef)
  show ?thesis
    unfolding rhe_def Let_def f by auto
qed

lemma ilog2_bounds:
  assumes "0 < r"
  shows "2 powi (ilog2 r) \<le> r" "r < 2 powi (ilog2 r + 1)"
proof -
  have "2 powi (ilog2 r) \<le> r \<and> r < 2 powi (ilog2 r + 1)"
  proof (cases "1 \<le> r")
    case True
    define n where "n = \<lfloor>r\<rfloor>"
    have n: "0 < n" "of_int n \<le> r" "r < of_int n + 1"
      using True unfolding n_def by linarith+
    have b: "0 \<le> bitlen n - 1"
      using n(1) bitlen_bounds [of n] by (simp add: bitlen_alt_def)
    have il: "ilog2 r = bitlen n - 1"
      using True by (simp add: ilog2_def n_def)
    from bitlen_bounds [OF n(1)]
    have lo: "(2::int) ^ nat (bitlen n - 1) \<le> n" and hi: "n + 1 \<le> 2 ^ nat (bitlen n)"
      by simp_all
    have "(2::rat) powi (bitlen n - 1) = of_int (2 ^ nat (bitlen n - 1))"
      using b by (simp add: power_int_def)
    also have "\<dots> \<le> of_int n"
      using lo by (simp only: of_int_le_iff)
    finally have 1: "2 powi (ilog2 r) \<le> r"
      using n(2) il by simp
    have "r < of_int (n + 1)"
      using n(3) by simp
    also have "\<dots> \<le> of_int (2 ^ nat (bitlen n))"
      using hi by (simp only: of_int_le_iff)
    also have "\<dots> = (2::rat) powi (ilog2 r + 1)"
      using b il by (simp add: power_int_def)
    finally show ?thesis
      using 1 by simp
  next
    case False
    define c where "c = \<lceil>1 / r\<rceil>"
    define m where "m = c - 1"
    define b where "b = bitlen m"
    have r1: "1 < 1 / r"
      using False assms by simp
    have c: "of_int c - 1 < 1 / r" "1 / r \<le> of_int c"
      unfolding c_def by linarith+
    have m: "0 < m"
      using r1 c(2) unfolding m_def by linarith
    have il: "ilog2 r = - b"
      using False by (simp add: ilog2_def b_def m_def c_def)
    have bpos: "0 < b"
      using m by (simp add: b_def bitlen_alt_def)
    from bitlen_bounds [OF m]
    have lo: "(2::int) ^ nat (b - 1) \<le> m" and hi: "m + 1 \<le> 2 ^ nat b"
      by (simp_all add: b_def)
    have "(2::rat) ^ nat (b - 1) = of_int (2 ^ nat (b - 1))"
      by simp
    also have "\<dots> \<le> of_int m"
      using lo by (simp only: of_int_le_iff)
    also have "\<dots> < 1 / r"
      using c(1) by (simp add: m_def)
    finally have "r < 1 / 2 ^ nat (b - 1)"
      using assms by (simp add: field_simps)
    also have "\<dots> = 2 powi (ilog2 r + 1)"
      using bpos il by (simp add: power_int_def field_simps)
    finally have 2: "r < 2 powi (ilog2 r + 1)" .
    have "1 / r \<le> of_int (m + 1)"
      using c(2) by (simp add: m_def)
    also have "\<dots> \<le> of_int (2 ^ nat b)"
      using hi by (simp only: of_int_le_iff)
    finally have "1 / 2 ^ nat b \<le> r"
      using assms by (simp add: field_simps)
    moreover have "1 / 2 ^ nat b = (2::rat) powi (ilog2 r)"
      using bpos il by (simp add: power_int_def field_simps)
    ultimately show ?thesis
      using 2 by simp
  qed
  then show "2 powi (ilog2 r) \<le> r" "r < 2 powi (ilog2 r + 1)"
    by simp_all
qed

lemma ilog2_unique:
  assumes "2 powi e \<le> r" "r < 2 powi (e + 1)"
  shows "ilog2 r = e"
proof -
  have r: "0 < r"
    using assms(1) zero_less_power_int [of "2::rat" e] by linarith
  have "(2::rat) powi (ilog2 r) < 2 powi (e + 1)"
    using ilog2_bounds(1) [OF r] assms(2) by linarith
  then have 1: "ilog2 r < e + 1"
    using power_int_increasing [of "e + 1" "ilog2 r" "2::rat"] by force
  have "(2::rat) powi e < 2 powi (ilog2 r + 1)"
    using ilog2_bounds(2) [OF r] assms(1) by linarith
  then have "e < ilog2 r + 1"
    using power_int_increasing [of "ilog2 r + 1" e "2::rat"] by force
  with 1 show ?thesis
    by simp
qed

lemma quantum_expo: "quantum r = 2 powi (expo r - 52)"
  by (simp add: quantum_def)

lemma quantum_pos [simp]: "0 < quantum r"
  by (simp add: quantum_def)

lemma quantum_minus [simp]: "quantum (- r) = quantum r"
  by (simp add: quantum_def expo_def)

lemma rnd_val_0 [simp]: "rnd_val 0 = 0"
  by (simp add: rnd_val_def)

lemma rnd_val_minus: "rnd_val (- r) = - rnd_val r"
  by (simp add: rnd_val_def rhe_minus)

lemma rhe_nonneg: "0 \<le> x \<Longrightarrow> 0 \<le> rhe x"
  using rhe_mono [of 0 x] rhe_of_int [of 0] by simp

lemma rnd_val_nonneg:
  assumes "0 \<le> r" shows "0 \<le> rnd_val r"
proof -
  have "0 \<le> r / quantum r"
    using assms by (simp add: less_imp_le)
  then have "0 \<le> rhe (r / quantum r)"
    by (rule rhe_nonneg)
  then show ?thesis
    by (simp add: rnd_val_def less_imp_le)
qed

lemma pow2_shift: "2 ^ n * (2::rat) powi (e - int n) = 2 powi e"
  using power_int_add [of "2::rat" "int n" "e - int n"] by simp

lemma expo_ge: "- 1022 \<le> expo r"
  by (simp add: expo_def)

lemma expo_upper:
  assumes "r \<noteq> 0" shows "\<bar>r\<bar> < 2 powi (expo r + 1)"
proof -
  have "\<bar>r\<bar> < 2 powi (ilog2 \<bar>r\<bar> + 1)"
    using assms ilog2_bounds(2) [of "\<bar>r\<bar>"] by simp
  also have "\<dots> \<le> 2 powi (expo r + 1)"
    by (rule power_int_increasing) (simp_all add: expo_def)
  finally show ?thesis .
qed

lemma expo_lower:
  assumes "r \<noteq> 0" "- 1022 < expo r" shows "2 powi (expo r) \<le> \<bar>r\<bar>"
proof -
  have "expo r = ilog2 \<bar>r\<bar>"
    using assms(2) by (simp add: expo_def max_def split: if_splits)
  then show ?thesis
    using assms(1) ilog2_bounds(1) [of "\<bar>r\<bar>"] by simp
qed

lemma expo_mono:
  assumes "0 < r" "r \<le> s" shows "expo r \<le> expo s"
proof -
  have "(2::rat) powi (ilog2 r) < 2 powi (ilog2 s + 1)"
    using ilog2_bounds(1) [of r] ilog2_bounds(2) [of s] assms by linarith
  then have "ilog2 r < ilog2 s + 1"
    using power_int_increasing [of "ilog2 s + 1" "ilog2 r" "2::rat"] by force
  then show ?thesis
    using assms by (simp add: expo_def)
qed

lemma expo_eqI:
  assumes "2 powi e \<le> \<bar>r\<bar> \<or> e = - 1022" "\<bar>r\<bar> < 2 powi (e + 1)" "- 1022 \<le> e" "r \<noteq> 0"
  shows "expo r = e"
proof (cases "2 powi e \<le> \<bar>r\<bar>")
  case True
  then have "ilog2 \<bar>r\<bar> = e"
    using assms(2) by (rule ilog2_unique)
  then show ?thesis
    using assms(3) by (simp add: expo_def)
next
  case False
  then have e: "e = - 1022"
    using assms(1) by simp
  have "(2::rat) powi (ilog2 \<bar>r\<bar>) < 2 powi (e + 1)"
    using ilog2_bounds(1) [of "\<bar>r\<bar>"] assms(2,4) by simp
  then have "ilog2 \<bar>r\<bar> < e + 1"
    using power_int_increasing [of "e + 1" "ilog2 \<bar>r\<bar>" "2::rat"] by force
  then show ?thesis
    using e by (simp add: expo_def)
qed

lemma rnd_val_eqI:
  assumes "2 powi e \<le> \<bar>r\<bar> \<or> e = - 1022" "\<bar>r\<bar> < 2 powi (e + 1)" "- 1022 \<le> e"
    and "rhe (r / 2 powi (e - 52)) = n"
  shows "rnd_val r = of_int n * 2 powi (e - 52)"
proof (cases "r = 0")
  case True
  with assms(4) show ?thesis by auto
next
  case False
  with assms have "expo r = e"
    by (intro expo_eqI)
  then show ?thesis
    using False assms(4) by (simp add: rnd_val_def quantum_expo)
qed

lemma rnd_val_upper:
  assumes "0 < r" shows "rnd_val r \<le> 2 powi (expo r + 1)"
proof -
  have "r / quantum r < 2 powi (expo r + 1) / 2 powi (expo r - 52)"
    using expo_upper [of r] assms by (simp add: quantum_expo divide_strict_right_mono)
  also have "\<dots> = 2 powi 53"
    by (simp add: power_int_diff [symmetric])
  finally have "r / quantum r \<le> of_int (2 ^ 53)"
    by simp
  then have "rhe (r / quantum r) \<le> 2 ^ 53"
    using rhe_mono [of "r / quantum r" "of_int (2 ^ 53)"] by (simp only: rhe_of_int)
  then have "(of_int (rhe (r / quantum r)) :: rat) \<le> of_int (2 ^ 53)"
    by (simp only: of_int_le_iff)
  then have "rnd_val r \<le> 2 ^ 53 * quantum r"
    using assms by (simp add: rnd_val_def)
  also have "\<dots> = 2 powi (expo r + 1)"
    using pow2_shift [of 53 "expo r + 1"] by (simp add: quantum_expo)
  finally show ?thesis .
qed

lemma rnd_val_lower:
  assumes "0 < r" "- 1022 < expo r" shows "2 powi (expo r) \<le> rnd_val r"
proof -
  have "2 powi (expo r) / 2 powi (expo r - 52) \<le> r / quantum r"
    using expo_lower [of r] assms by (simp add: quantum_expo divide_right_mono)
  moreover have "(2::rat) powi (expo r) / 2 powi (expo r - 52) = 2 powi 52"
    by (simp add: power_int_diff [symmetric])
  ultimately have "of_int (2 ^ 52) \<le> r / quantum r"
    by simp
  then have "2 ^ 52 \<le> rhe (r / quantum r)"
    using rhe_mono [of "of_int (2 ^ 52)" "r / quantum r"] by (simp only: rhe_of_int)
  then have "(of_int (2 ^ 52) :: rat) \<le> of_int (rhe (r / quantum r))"
    by (simp only: of_int_le_iff)
  then have "2 ^ 52 * quantum r \<le> rnd_val r"
    using assms by (simp add: rnd_val_def)
  moreover have "2 ^ 52 * quantum r = 2 powi (expo r)"
    using pow2_shift [of 52 "expo r"] by (simp add: quantum_expo)
  ultimately show ?thesis by simp
qed

lemma rnd_val_mono_pos:
  assumes "0 < r" "r \<le> s" shows "rnd_val r \<le> rnd_val s"
proof (cases "expo r = expo s")
  case True
  then have q: "quantum s = quantum r"
    by (simp add: quantum_expo)
  have "r / quantum r \<le> s / quantum r"
    using assms(2) by (intro divide_right_mono) (simp_all add: less_imp_le)
  then have "rhe (r / quantum r) \<le> rhe (s / quantum r)"
    by (rule rhe_mono)
  then have "(of_int (rhe (r / quantum r)) :: rat) \<le> of_int (rhe (s / quantum r))"
    by (simp only: of_int_le_iff)
  then show ?thesis
    using assms q by (simp add: rnd_val_def)
next
  case False
  then have lt: "expo r < expo s"
    using expo_mono [OF assms] by simp
  then have "- 1022 < expo s"
    using expo_ge [of r] by simp
  then have "2 powi (expo s) \<le> rnd_val s"
    using assms by (intro rnd_val_lower) simp_all
  moreover have "(2::rat) powi (expo r + 1) \<le> 2 powi (expo s)"
    using lt by (intro power_int_increasing) simp_all
  ultimately show ?thesis
    using rnd_val_upper [OF assms(1)] by linarith
qed

lemma rnd_val_mono:
  assumes "r \<le> s" shows "rnd_val r \<le> rnd_val s"
proof -
  consider "0 < r" | "r \<le> 0" "0 \<le> s" | "s < 0"
    using assms by linarith
  then show ?thesis
  proof cases
    case 1
    then show ?thesis using assms by (rule rnd_val_mono_pos)
  next
    case 2
    have "rnd_val r \<le> 0"
      using rnd_val_nonneg [of "- r"] 2(1) by (simp add: rnd_val_minus)
    with rnd_val_nonneg [OF 2(2)] show ?thesis by simp
  next
    case 3
    then have "rnd_val (- s) \<le> rnd_val (- r)"
      using assms by (intro rnd_val_mono_pos) simp_all
    then show ?thesis
      by (simp add: rnd_val_minus)
  qed
qed

lemma rhe_eqI:
  assumes "\<bar>x - of_int n\<bar> < 1 / 2 \<or> (\<bar>x - of_int n\<bar> = 1 / 2 \<and> even n)"
  shows "rhe x = n"
proof -
  have "\<lfloor>x\<rfloor> = n \<or> \<lfloor>x\<rfloor> = n - 1"
    using assms by (auto simp: floor_eq_iff abs_if split: if_splits)
  then show ?thesis
  proof
    assume f: "\<lfloor>x\<rfloor> = n"
    then have "0 \<le> x - of_int n"
      using floor_correct [of x] by simp
    with assms f show ?thesis
      by (auto simp: rhe_def Let_def)
  next
    assume f: "\<lfloor>x\<rfloor> = n - 1"
    then have "x - of_int n < 0"
      using floor_correct [of x] by simp
    with assms f show ?thesis
      by (auto simp: rhe_def Let_def)
  qed
qed

lemma rnd_val_cert:
  assumes "2 powi e \<le> \<bar>r\<bar> \<or> e = - 1022" "\<bar>r\<bar> < 2 powi (e + 1)" "- 1022 \<le> e"
    and "\<bar>r - of_int n * 2 powi (e - 52)\<bar> * 2 < 2 powi (e - 52) \<or>
         (\<bar>r - of_int n * 2 powi (e - 52)\<bar> * 2 = 2 powi (e - 52) \<and> even n)"
  shows "rnd_val r = of_int n * 2 powi (e - 52)"
proof -
  define q :: rat where "q = 2 powi (e - 52)"
  have q: "0 < q" by (simp add: q_def)
  have "\<bar>r / q - of_int n\<bar> = \<bar>r - of_int n * q\<bar> / q"
    using q by (simp add: field_simps abs_if)
  then have "\<bar>r / q - of_int n\<bar> < 1 / 2 \<or> (\<bar>r / q - of_int n\<bar> = 1 / 2 \<and> even n)"
    using assms(4) q unfolding q_def [symmetric] by (auto simp: field_simps)
  then have "rhe (r / q) = n"
    by (rule rhe_eqI)
  then show ?thesis
    unfolding q_def using assms(1-3) by (intro rnd_val_eqI)
qed

lemma rnd_val_abs: "rnd_val \<bar>r\<bar> = \<bar>rnd_val r\<bar>"
proof (cases "0 \<le> r")
  case True
  then show ?thesis using rnd_val_nonneg [of r] by simp
next
  case False
  then have "0 \<le> rnd_val (- r)"
    by (intro rnd_val_nonneg) simp
  with False show ?thesis
    by (simp add: rnd_val_minus)
qed

lemma rnd_val_abs_le:
  assumes "\<bar>r\<bar> \<le> B" "rnd_val B = B" shows "\<bar>rnd_val r\<bar> \<le> B"
  using rnd_val_mono [OF assms(1)] assms(2) by (simp add: rnd_val_abs)

lemma rnd_val_max: "rnd_val (2 ^ 1023) = 2 ^ 1023"
  by (rule rnd_val_cert [where e = 1023 and n = "2 ^ 52", THEN trans]) simp_all

lemma rnd_Finite:
  assumes "\<bar>r\<bar> \<le> 2 ^ 1023" shows "rnd r = Finite (rnd_val r)"
proof -
  have "\<bar>rnd_val r\<bar> \<le> 2 ^ 1023"
    using assms rnd_val_max by (rule rnd_val_abs_le)
  then show ?thesis
    by (simp add: rnd_def Let_def abs_le_iff)
qed

lemma rv_1: "rnd_val 1 = 1"
  by (rule rnd_val_cert [where e = 0 and n = "2 ^ 52", THEN trans]) simp_all
lemma rv_30: "rnd_val 30 = 30"
  by (rule rnd_val_cert [where e = 4 and n = "30 * 2 ^ 48", THEN trans]) simp_all
lemma rv_60: "rnd_val 60 = 60"
  by (rule rnd_val_cert [where e = 5 and n = "60 * 2 ^ 47", THEN trans]) simp_all
lemma rv_100: "rnd_val 100 = 100"
  by (rule rnd_val_cert [where e = 6 and n = "100 * 2 ^ 46", THEN trans]) simp_all
lemma rv_120: "rnd_val 120 = 120"
  by (rule rnd_val_cert [where e = 6 and n = "120 * 2 ^ 46", THEN trans]) simp_all
lemma rv_180: "rnd_val 180 = 180"
  by (rule rnd_val_cert [where e = 7 and n = "180 * 2 ^ 45", THEN trans]) simp_all
lemma rv_240: "rnd_val 240 = 240"
  by (rule rnd_val_cert [where e = 7 and n = "240 * 2 ^ 45", THEN trans]) simp_all
lemma rv_half: "rnd_val (1 / 2) = 1 / 2"
  by (rule rnd_val_cert [where e = "- 1" and n = "2 ^ 52", THEN trans]) simp_all
lemma rv_quarter: "rnd_val (1 / 4) = 1 / 4"
  by (rule rnd_val_cert [where e = "- 2" and n = "2 ^ 52", THEN trans]) simp_all
lemma rv_3_4: "rnd_val (3 / 4) = 3 / 4"
  by (rule rnd_val_cert [where e = "- 1" and n = "3 * 2 ^ 51", THEN trans]) simp_all
lemma rv_3_2: "rnd_val (3 / 2) = 3 / 2"
  by (rule rnd_val_cert [where e = 0 and n = "3 * 2 ^ 51", THEN trans]) simp_all
lemma rv_0_9: "rnd_val (9 / 10) = d0_9"
  unfolding d0_9_def
  by (rule rnd_val_cert [where e = "- 1" and n = 8106479329266893, THEN trans]) simp_all
lemma rv_0_6: "rnd_val (6 / 10) = d0_6"
  unfolding d0_6_def
  by (rule rnd_val_cert [where e = "- 1" and n = 5404319552844595, THEN trans]) simp_all
lemma rv_0_18: "rnd_val (18 / 100) = d0_18"
  unfolding d0_18_def
  by (rule rnd_val_cert [where e = "- 3" and n = 6485183463413514, THEN trans]) simp_all
lemma rv_d0_9: "rnd_val d0_9 = d0_9"
  unfolding d0_9_def
  by (rule rnd_val_cert [where e = "- 1" and n = 8106479329266893, THEN trans]) simp_all
lemma rv_d0_9_half: "rnd_val (1 / 2 * d0_9) = 1 / 2 * d0_9"
  unfolding d0_9_def
  by (rule rnd_val_cert [where e = "- 2" and n = 8106479329266893, THEN trans]) simp_all
lemma rv_d0_6: "rnd_val d0_6 = d0_6"
  unfolding d0_6_def
  by (rule rnd_val_cert [where e = "- 1" and n = 5404319552844595, THEN trans]) simp_all
lemma rv_d0_6_quarter: "rnd_val (1 / 4 * d0_6) = 1 / 4 * d0_6"
  unfolding d0_6_def
  by (rule rnd_val_cert [where e = "- 3" and n = 5404319552844595, THEN trans]) simp_all
lemma rv_k_min: "rnd_val (1 / 2 * d0_9 + 1 / 4 * d0_6) = d0_6"
  unfolding d0_6_def d0_9_def
  by (rule rnd_val_cert [where e = "- 1" and n = 5404319552844595, THEN trans]) simp_all
lemma rv_k_max: "rnd_val (d0_9 + d0_6) = 3 / 2"
  unfolding d0_6_def d0_9_def
  by (rule rnd_val_cert [where e = 0 and n = 6755399441055744, THEN trans]) simp_all
lemma rv_s1_min: "rnd_val (d0_6 / (3 / 2)) = 7205759403792793 / 18014398509481984"
  unfolding d0_6_def
  by (rule rnd_val_cert [where e = "- 2" and n = 7205759403792793, THEN trans]) simp_all
lemma rv_s2_min: "rnd_val (7205759403792793 / 18014398509481984 * 100) = 40"
  by (rule rnd_val_cert [where e = 5 and n = 5629499534213120, THEN trans]) simp_all

lemma pct_r_min: "pct_r d0_6 = 40"
  unfolding pct_r_def by (simp only: rv_s1_min rv_s2_min)

lemma pct_r_max: "pct_r (3 / 2) = 100"
  by (simp add: pct_r_def rv_1 rv_100)

lemma pct_r_mono: "x \<le> y \<Longrightarrow> pct_r x \<le> pct_r y"
  unfolding pct_r_def
  by (intro rnd_val_mono mult_right_mono divide_right_mono) simp_all

lemma tf_r_bounds:
  assumes "0 \<le> t" "t \<le> 90"
  shows "1 / 2 \<le> tf_r t" "tf_r t \<le> 1"
proof -
  have "\<bar>t - 30\<bar> \<le> 60"
    using assms by (simp add: abs_le_iff)
  then have "\<bar>rnd_val (t - 30)\<bar> \<le> 60"
    using rv_60 by (rule rnd_val_abs_le)
  then have "\<bar>rnd_val (t - 30)\<bar> / 120 \<le> 1 / 2" "0 \<le> \<bar>rnd_val (t - 30)\<bar> / 120"
    by simp_all
  then have "rnd_val (\<bar>rnd_val (t - 30)\<bar> / 120) \<le> 1 / 2"
    "0 \<le> rnd_val (\<bar>rnd_val (t - 30)\<bar> / 120)"
    using rnd_val_mono [of "\<bar>rnd_val (t - 30)\<bar> / 120" "1 / 2"] rv_half
    by (simp_all add: rnd_val_nonneg)
  then have "1 / 2 \<le> 1 - rnd_val (\<bar>rnd_val (t - 30)\<bar> / 120)"
    "1 - rnd_val (\<bar>rnd_val (t - 30)\<bar> / 120) \<le> 1"
    by simp_all
  then show "1 / 2 \<le> tf_r t" "tf_r t \<le> 1"
    unfolding tf_r_def using rnd_val_mono [of "1 / 2"] rnd_val_mono [of _ 1] rv_half rv_1
    by fastforce+
qed

lemma dev_r_bounds:
  assumes "0 \<le> a" "a \<le> 360"
  shows "0 \<le> dev_r a" "dev_r a \<le> 180"
proof -
  have "\<bar>a - 180\<bar> \<le> 180"
    using assms by (simp add: abs_le_iff)
  then show "dev_r a \<le> 180"
    unfolding dev_r_def using rv_180 by (rule rnd_val_abs_le)
  show "0 \<le> dev_r a"
    by (simp add: dev_r_def)
qed

lemma fs_r_bounds:
  assumes "0 \<le> a" "a \<le> 360"
  shows "1 / 4 \<le> fs_r a" "fs_r a \<le> 1"
proof -
  have "dev_r a / 240 \<le> 3 / 4" "0 \<le> dev_r a / 240"
    using dev_r_bounds [OF assms] by simp_all
  then have "rnd_val (dev_r a / 240) \<le> 3 / 4" "0 \<le> rnd_val (dev_r a / 240)"
    using rnd_val_mono [of "dev_r a / 240" "3 / 4"] rv_3_4
    by (simp_all add: rnd_val_nonneg)
  then have "1 / 4 \<le> 1 - rnd_val (dev_r a / 240)" "1 - rnd_val (dev_r a / 240) \<le> 1"
    by simp_all
  then show "1 / 4 \<le> fs_r a" "fs_r a \<le> 1"
    unfolding fs_r_def using rnd_val_mono [of "1 / 4"] rnd_val_mono [of _ 1] rv_quarter rv_1
    by fastforce+
qed

lemma d0_9_pos: "0 < d0_9" and d0_6_pos: "0 < d0_6" and d0_18_pos: "0 < d0_18"
  by (simp_all add: d0_9_def d0_6_def d0_18_def)

lemma k_r_bounds:
  assumes "0 \<le> t" "t \<le> 90" "0 \<le> a" "a \<le> 360"
  shows "d0_6 \<le> k_r t a" "k_r t a \<le> 3 / 2"
proof -
  have "1 / 2 * d0_9 \<le> tf_r t * d0_9" "tf_r t * d0_9 \<le> d0_9"
    using tf_r_bounds [OF assms(1,2)] d0_9_pos by simp_all
  then have 1: "1 / 2 * d0_9 \<le> rnd_val (tf_r t * d0_9)" "rnd_val (tf_r t * d0_9) \<le> d0_9"
    using rnd_val_mono [of "1 / 2 * d0_9" "tf_r t * d0_9"]
      rnd_val_mono [of "tf_r t * d0_9" d0_9] rv_d0_9 rv_d0_9_half
    by simp_all
  have "1 / 4 * d0_6 \<le> fs_r a * d0_6" "fs_r a * d0_6 \<le> d0_6"
    using fs_r_bounds [OF assms(3,4)] d0_6_pos by simp_all
  then have 2: "1 / 4 * d0_6 \<le> rnd_val (fs_r a * d0_6)" "rnd_val (fs_r a * d0_6) \<le> d0_6"
    using rnd_val_mono [of "1 / 4 * d0_6" "fs_r a * d0_6"]
      rnd_val_mono [of "fs_r a * d0_6" d0_6] rv_d0_6 rv_d0_6_quarter
    by simp_all
  have "1 / 2 * d0_9 + 1 / 4 * d0_6 \<le> rnd_val (tf_r t * d0_9) + rnd_val (fs_r a * d0_6)"
    "rnd_val (tf_r t * d0_9) + rnd_val (fs_r a * d0_6) \<le> d0_9 + d0_6"
    using 1 2 by linarith+
  then show "d0_6 \<le> k_r t a" "k_r t a \<le> 3 / 2"
    unfolding k_r_def
    using rnd_val_mono [of "1 / 2 * d0_9 + 1 / 4 * d0_6"] rnd_val_mono [of _ "d0_9 + d0_6"]
      rv_k_min rv_k_max
    by fastforce+
qed

section \<open>The estimator on valid input\<close>

lemma fle_Finite_left: "fle (Finite b) x \<longleftrightarrow> x = PInf \<or> (\<exists>r. x = Finite r \<and> b \<le> r)"
  by (cases x) (auto simp: fle_def)

lemma fle_Finite_right: "fle x (Finite b) \<longleftrightarrow> x = NInf \<or> (\<exists>r. x = Finite r \<and> r \<le> b)"
  by (cases x) (auto simp: fle_def)

lemma valid_EnergyInput_iff:
  "valid_EnergyInput inp \<longleftrightarrow>
     (\<exists>t. tilt inp = Finite t \<and> 0 \<le> t \<and> t \<le> 90) \<and>
     (\<exists>a. azimuth inp = Finite a \<and> 0 \<le> a \<and> a \<le> 360) \<and>
     (irradiance inp = PInf \<or> (\<exists>i. irradiance inp = Finite i \<and> 0 \<le> i)) \<and>
     (area inp = PInf \<or> (\<exists>s. area inp = Finite s \<and> 0 \<le> s))"
  by (auto simp: valid_EnergyInput_def tilt_ok_def azimuth_ok_def irradiance_ok_def area_ok_def
      fle_Finite_left fle_Finite_right)

lemma small_big: "\<bar>x\<bar> \<le> 1000 \<Longrightarrow> \<bar>x :: rat\<bar> \<le> 2 ^ 1023"
  by simp

lemma fadd_Finite: "\<bar>a + b\<bar> \<le> 1000 \<Longrightarrow> fadd (Finite a) (Finite b) = Finite (rnd_val (a + b))"
  by (simp add: rnd_Finite small_big)

lemma fsub_Finite: "\<bar>a - b\<bar> \<le> 1000 \<Longrightarrow> fsub (Finite a) (Finite b) = Finite (rnd_val (a - b))"
  by (simp add: fsub_def rnd_Finite small_big)

lemma fmul_Finite: "\<bar>a * b\<bar> \<le> 1000 \<Longrightarrow> fmul (Finite a) (Finite b) = Finite (rnd_val (a * b))"
  by (simp add: rnd_Finite small_big)

lemma fdiv_Finite:
  "b \<noteq> 0 \<Longrightarrow> \<bar>a / b\<bar> \<le> 1000 \<Longrightarrow> fdiv (Finite a) (Finite b) = Inr (Finite (rnd_val (a / b)))"
  by (simp add: rnd_Finite small_big)

lemma float_of_int_small:
  assumes "rnd_val (of_int n) = of_int n" "\<bar>n\<bar> \<le> 1000"
  shows "float_of_int n = Inr (Finite (of_int n))"
proof -
  have "\<bar>of_int n :: rat\<bar> \<le> 1000"
    using assms(2) by (metis of_int_abs of_int_le_iff of_int_numeral)
  then show ?thesis
    using assms(1) by (simp add: float_of_int_def rnd_Finite small_big)
qed

lemma float_of_int_consts:
  "float_of_int 0 = Inr (Finite 0)"
  "float_of_int 1 = Inr (Finite 1)"
  "float_of_int 30 = Inr (Finite 30)"
  "float_of_int 100 = Inr (Finite 100)"
  "float_of_int 120 = Inr (Finite 120)"
  "float_of_int 180 = Inr (Finite 180)"
  "float_of_int 240 = Inr (Finite 240)"
  using float_of_int_small [of 0] float_of_int_small [of 1] float_of_int_small [of 30]
    float_of_int_small [of 100] float_of_int_small [of 120] float_of_int_small [of 180]
    float_of_int_small [of 240]
  by (simp_all add: rv_1 rv_30 rv_100 rv_120 rv_180 rv_240)

lemma float_literal_consts:
  "float_literal (9 / 10) = PFloat (Finite d0_9)"
  "float_literal (6 / 10) = PFloat (Finite d0_6)"
  "float_literal (18 / 100) = PFloat (Finite d0_18)"
  "float_literal (5 / 10) = PFloat (Finite (1 / 2))"
  "float_literal (15 / 10) = PFloat (Finite (3 / 2))"
  using rv_0_9 rv_0_6 rv_0_18 rv_half rv_3_2
  by (simp_all add: float_literal_def rnd_Finite)

lemma float_literal_norm:
  "float_literal (3 / 5) = PFloat (Finite d0_6)"
  "float_literal (9 / 50) = PFloat (Finite d0_18)"
  "float_literal (1 / 2) = PFloat (Finite (1 / 2))"
  "float_literal (3 / 2) = PFloat (Finite (3 / 2))"
  using float_literal_consts by simp_all

lemma d0_6_gt_half: "1 / 2 < d0_6"
  by (simp add: d0_6_def)

lemma pct_r_bounds:
  assumes "d0_6 \<le> x" "x \<le> 3 / 2"
  shows "40 \<le> pct_r x" "pct_r x \<le> 100"
  using pct_r_mono [OF assms(1)] pct_r_mono [OF assms(2)] pct_r_min pct_r_max by simp_all

lemma compute_locals_valid:
  assumes t: "tilt inp = Finite t" "0 \<le> t" "t \<le> 90"
    and a: "azimuth inp = Finite a" "0 \<le> a" "a \<le> 360"
  shows "compute_locals inp = Inr
     \<lparr>tiltFactor = PFloat (Finite (tf_r t)),
      facingSouthFactor = PFloat (Finite (fs_r a)),
      k = PFloat (Finite (k_r t a)),
      dailyKWh = PFloat (daily_d (irradiance inp) (area inp) (k_r t a)),
      monthlyKWh = PFloat (fmul (daily_d (irradiance inp) (area inp) (k_r t a)) (Finite 30)),
      score_local = score_r (k_r t a)\<rparr>"
proof -
  define t1 where "t1 = rnd_val (t - 30)"
  define t2 where "t2 = rnd_val (\<bar>t1\<bar> / 120)"
  define a1 where "a1 = rnd_val (a - 180)"
  define a2 where "a2 = rnd_val (\<bar>a1\<bar> / 240)"
  define k1 where "k1 = rnd_val (tf_r t * d0_9)"
  define k2 where "k2 = rnd_val (fs_r a * d0_6)"
  define s1 where "s1 = rnd_val (k_r t a / (3 / 2))"
  have tf: "tf_r t = rnd_val (1 - t2)"
    by (simp add: tf_r_def t2_def t1_def)
  have fs: "fs_r a = rnd_val (1 - a2)"
    by (simp add: fs_r_def dev_r_def a2_def a1_def)
  have kr: "k_r t a = rnd_val (k1 + k2)"
    by (simp add: k_r_def k1_def k2_def)
  have pct: "pct_r (k_r t a) = rnd_val (s1 * 100)"
    by (simp add: pct_r_def s1_def)
  have tfb: "1 / 2 \<le> tf_r t" "tf_r t \<le> 1"
    using tf_r_bounds t(2,3) by simp_all
  have fsb: "1 / 4 \<le> fs_r a" "fs_r a \<le> 1"
    using fs_r_bounds a(2,3) by simp_all
  have kb: "d0_6 \<le> k_r t a" "k_r t a \<le> 3 / 2"
    using k_r_bounds t(2,3) a(2,3) by simp_all
  have pb: "40 \<le> pct_r (k_r t a)" "pct_r (k_r t a) \<le> 100"
    using pct_r_bounds kb by simp_all
  have t1b: "\<bar>t1\<bar> \<le> 60"
    unfolding t1_def using t(2,3) by (intro rnd_val_abs_le rv_60) (simp add: abs_le_iff)
  have a1b: "\<bar>a1\<bar> \<le> 180"
    using dev_r_bounds(2) [OF a(2,3)] by (simp add: dev_r_def a1_def)
  have t2b: "\<bar>t2\<bar> \<le> 1"
    unfolding t2_def using t1b by (intro rnd_val_abs_le rv_1) simp
  have a2b: "\<bar>a2\<bar> \<le> 1"
    unfolding a2_def using a1b by (intro rnd_val_abs_le rv_1) simp
  have m1: "\<bar>tf_r t * d0_9\<bar> \<le> 1"
    using tfb by (simp add: abs_mult d0_9_def mult_le_one)
  have m2: "\<bar>fs_r a * d0_6\<bar> \<le> 1"
    using fsb by (simp add: abs_mult d0_6_def mult_le_one)
  have k1b: "\<bar>k1\<bar> \<le> 1"
    unfolding k1_def using m1 rv_1 by (rule rnd_val_abs_le)
  have k2b: "\<bar>k2\<bar> \<le> 1"
    unfolding k2_def using m2 rv_1 by (rule rnd_val_abs_le)
  have s1b: "\<bar>s1\<bar> \<le> 1"
    unfolding s1_def using kb d0_6_pos
    by (intro rnd_val_abs_le rv_1) simp
  have e1: "py_sub (PFloat (tilt inp)) (PInt 30) = Inr (PFloat (Finite t1))"
    using t by (simp add: py_bind_def float_of_int_consts fsub_Finite t1_def abs_le_iff)
  have e2: "py_truediv (py_abs (PFloat (Finite t1))) (PInt 120) = Inr (PFloat (Finite t2))"
    using t1b by (simp add: py_bind_def float_of_int_consts rnd_Finite small_big t2_def)
  have e3: "py_sub (PInt 1) (PFloat (Finite t2)) = Inr (PFloat (Finite (tf_r t)))"
    using t2b by (simp add: py_bind_def float_of_int_consts fsub_Finite tf abs_le_iff)
  have e4: "py_sub (PFloat (azimuth inp)) (PInt 180) = Inr (PFloat (Finite a1))"
    using a by (simp add: py_bind_def float_of_int_consts fsub_Finite a1_def abs_le_iff)
  have e5: "py_min (py_abs (PFloat (Finite a1))) (PInt 180) = PFloat (Finite \<bar>a1\<bar>)"
    using a1b by (simp add: py_min_def)
  have e6: "py_truediv (PFloat (Finite \<bar>a1\<bar>)) (PInt 240) = Inr (PFloat (Finite a2))"
    using a1b by (simp add: py_bind_def float_of_int_consts rnd_Finite small_big a2_def)
  have e7: "py_sub (PInt 1) (PFloat (Finite a2)) = Inr (PFloat (Finite (fs_r a)))"
    using a2b by (simp add: py_bind_def float_of_int_consts fsub_Finite fs abs_le_iff)
  have e8: "py_mul (PFloat (Finite (tf_r t))) (float_literal (9 / 10)) = Inr (PFloat (Finite k1))"
    using m1 by (simp add: py_bind_def float_literal_consts float_literal_norm rnd_Finite k1_def)
  have e9: "py_mul (PFloat (Finite (fs_r a))) (float_literal (6 / 10)) = Inr (PFloat (Finite k2))"
    using m2 by (simp add: py_bind_def float_literal_consts float_literal_norm rnd_Finite k2_def)
  have e10: "py_add (PFloat (Finite k1)) (PFloat (Finite k2)) = Inr (PFloat (Finite (k_r t a)))"
    using k1b k2b by (simp add: py_bind_def rnd_Finite kr)
  have e11: "py_max (float_literal (5 / 10)) (PFloat (Finite (k_r t a))) = PFloat (Finite (k_r t a))"
    using kb d0_6_gt_half by (simp add: py_max_def float_literal_consts float_literal_norm)
  have e12: "py_mul (PFloat (irradiance inp)) (PFloat (area inp))
      = Inr (PFloat (fmul (irradiance inp) (area inp)))"
    by (simp add: py_bind_def)
  have e13: "py_mul (PFloat (fmul (irradiance inp) (area inp))) (float_literal (18 / 100))
      = Inr (PFloat (fmul (fmul (irradiance inp) (area inp)) (Finite d0_18)))"
    by (simp add: py_bind_def float_literal_consts float_literal_norm)
  have e14: "py_mul (PFloat (fmul (fmul (irradiance inp) (area inp)) (Finite d0_18)))
        (PFloat (Finite (k_r t a)))
      = Inr (PFloat (daily_d (irradiance inp) (area inp) (k_r t a)))"
    by (simp add: py_bind_def daily_d_def)
  have e15: "py_mul (PFloat (daily_d (irradiance inp) (area inp) (k_r t a))) (PInt 30)
      = Inr (PFloat (fmul (daily_d (irradiance inp) (area inp) (k_r t a)) (Finite 30)))"
    by (simp add: py_bind_def float_of_int_consts)
  have e16: "py_truediv (PFloat (Finite (k_r t a))) (float_literal (15 / 10))
      = Inr (PFloat (Finite s1))"
    using kb d0_6_pos by (simp add: py_bind_def float_literal_consts float_literal_norm rnd_Finite small_big s1_def)
  have e17: "py_mul (PFloat (Finite s1)) (PInt 100) = Inr (PFloat (Finite (pct_r (k_r t a))))"
    using s1b by (simp add: py_bind_def float_of_int_consts rnd_Finite pct abs_mult)
  have e18: "py_round (py_min (PInt 100) (PFloat (Finite (pct_r (k_r t a)))))
      = Inr (score_r (k_r t a))"
    by (simp add: py_min_def score_r_def)
  show ?thesis
    unfolding compute_locals_def
    by (simp only: e1 e2 e3 e4 e5 e6 e7 e8 e9 e10 e11 e12 e13 e14 e15 e16 e17 e18 py_bind_def
        sum.case Let_def)
qed

lemma to_float_max0: "to_float (py_max (PInt 0) (PFloat x)) = Inr (clamp0 x)"
  by (simp add: py_max_def clamp0_def float_of_int_consts)

lemma compute_energy_valid:
  assumes "tilt inp = Finite t" "0 \<le> t" "t \<le> 90"
    and "azimuth inp = Finite a" "0 \<le> a" "a \<le> 360"
  shows "compute_energy inp = Inr
     \<lparr>daily = clamp0 (daily_d (irradiance inp) (area inp) (k_r t a)),
      monthly = clamp0 (fmul (daily_d (irradiance inp) (area inp) (k_r t a)) (Finite 30)),
      score = score_r (k_r t a)\<rparr>"
  unfolding compute_energy_def compute_locals_valid [OF assms]
  by (simp add: py_bind_def to_float_max0)

lemma rnd_not_NaN [simp]: "rnd r \<noteq> NaN"
  by (simp add: rnd_def Let_def)

lemma rnd_mono:
  assumes "r \<le> s" shows "fle (rnd r) (rnd s)"
  using rnd_val_mono [OF assms]
  by (auto simp: rnd_def Let_def fle_def)

lemma fle_refl: "x \<noteq> NaN \<Longrightarrow> fle x x"
  by (cases x) (simp_all add: fle_def)

lemma fle_trans: "fle x y \<Longrightarrow> fle y z \<Longrightarrow> fle x z"
  by (cases x; cases y; cases z) (auto simp: fle_def)

lemma flt_fle_trans: "flt x y \<Longrightarrow> fle y z \<Longrightarrow> flt x z"
  by (cases x; cases y; cases z) (auto simp: fle_def)

lemma flt_imp_fle: "flt x y \<Longrightarrow> fle x y"
  by (simp add: fle_def)

lemma clamp0_nonneg: "fle (Finite 0) (clamp0 x)"
  by (simp add: clamp0_def fle_def)


lemma rv_tiny: "rnd_val (1 / 2 ^ 1074) = 1 / 2 ^ 1074"
  by (rule rnd_val_cert [where e = "- 1022" and n = 1, THEN trans]) simp_all

lemma rnd_val_pos_ge:
  assumes "0 < rnd_val r" shows "1 / 2 ^ 1074 \<le> rnd_val r"
proof -
  have r: "r \<noteq> 0"
    using assms by auto
  have "0 < of_int (rhe (r / quantum r)) * quantum r"
    using assms r by (simp add: rnd_val_def)
  then have "(0::rat) < of_int (rhe (r / quantum r))"
    using quantum_pos [of r] by (rule zero_less_mult_pos2)
  then have "0 < rhe (r / quantum r)"
    by simp
  then have "(1::rat) \<le> of_int (rhe (r / quantum r))"
    by linarith
  then have "quantum r \<le> rnd_val r"
    using r by (simp add: rnd_val_def)
  moreover have "(2::rat) powi (- 1074) \<le> quantum r"
    unfolding quantum_expo using expo_ge [of r] by (intro power_int_increasing) simp_all
  ultimately show ?thesis
    by (simp add: power_int_minus_divide)
qed

lemma rnd_pos:
  assumes "1 / 2 ^ 1074 \<le> r" shows "flt (Finite 0) (rnd r)"
proof -
  have "1 / 2 ^ 1074 \<le> rnd_val r"
    using rnd_val_mono [OF assms] rv_tiny by simp
  moreover have "(0::rat) < 1 / 2 ^ 1074"
    by simp
  ultimately have "0 < rnd_val r"
    by (rule less_le_trans [rotated])
  then show ?thesis
    by (auto simp: rnd_def Let_def)
qed

lemma fmul_Finite_pos:
  assumes "fmul x y = Finite d" "0 < d" shows "1 / 2 ^ 1074 \<le> d"
proof -
  obtain a b where "x = Finite a" "y = Finite b"
    using assms(1) by (cases x; cases y) (auto simp: inf_of_sign_def split: if_splits)
  then have "rnd (a * b) = Finite d"
    using assms(1) by simp
  then have "d = rnd_val (a * b)"
    by (auto simp: rnd_def Let_def split: if_splits)
  then show ?thesis
    using assms(2) rnd_val_pos_ge by simp
qed

lemma monthly_of_daily:
  assumes "D = fmul x y"
  shows "feq (clamp0 (fmul D (Finite 30))) (fmul (clamp0 D) (Finite 30))"
proof (cases "flt (Finite 0) D")
  case True
  then consider d where "D = Finite d" "0 < d" | "D = PInf"
    by (cases D) auto
  then show ?thesis
  proof cases
    case 1
    then have "1 / 2 ^ 1074 \<le> d"
      using assms fmul_Finite_pos by metis
    then have "1 / 2 ^ 1074 \<le> d * 30"
      using 1(2) by linarith
    then have "flt (Finite 0) (rnd (d * 30))"
      by (rule rnd_pos)
    then show ?thesis
      using 1 by (cases "rnd (d * 30)") (auto simp: clamp0_def)
  next
    case 2
    then show ?thesis
      by (simp add: clamp0_def inf_of_sign_def)
  qed
next
  case False
  then consider d where "D = Finite d" "d \<le> 0" | "D = NInf" | "D = NaN"
    by (cases D) auto
  then show ?thesis
  proof cases
    case 1
    have "fle (rnd (d * 30)) (rnd 0)"
      using 1(2) by (intro rnd_mono) simp
    then have "\<not> flt (Finite 0) (rnd (d * 30))"
      by (cases "rnd (d * 30)") (auto simp: fle_def rnd_def)
    then show ?thesis
      using 1 by (simp add: clamp0_def rnd_def)
  next
    case 2
    then show ?thesis
      by (simp add: clamp0_def inf_of_sign_def rnd_def)
  next
    case 3
    then show ?thesis
      by (simp add: clamp0_def rnd_def)
  qed
qed

lemma score_r_bounds:
  assumes "d0_6 \<le> x" "x \<le> 3 / 2"
  shows "40 \<le> score_r x" "score_r x \<le> 100"
proof -
  have "rhe 40 \<le> rhe (pct_r x)"
    using pct_r_bounds(1) [OF assms] by (rule rhe_mono)
  moreover have "rhe (pct_r x) \<le> rhe 100"
    using pct_r_bounds(2) [OF assms] by (rule rhe_mono)
  ultimately show "40 \<le> score_r x" "score_r x \<le> 100"
    by (simp_all add: score_r_def)
qed



lemma fle_0_nonneg: "fle (Finite 0) x \<Longrightarrow> nonneg_or_nan x"
  by (auto simp: fle_Finite_left nonneg_or_nan_def)



section \<open>Order and sign through the arithmetic\<close>

lemma fle_Finite [simp]: "fle (Finite a) (Finite b) \<longleftrightarrow> a \<le> b"
  by (auto simp: fle_def)

lemma valid_EnergyInputE:
  assumes "valid_EnergyInput inp"
  obtains t a where "tilt inp = Finite t" "0 \<le> t" "t \<le> 90"
    "azimuth inp = Finite a" "0 \<le> a" "a \<le> 360"
    "nonneg_or_nan (irradiance inp)" "nonneg_or_nan (area inp)"
  using assms unfolding valid_EnergyInput_iff by (auto simp: nonneg_or_nan_def)

lemma daily_d_fmul: "\<exists>x y. daily_d i ar c = fmul x y"
  unfolding daily_d_def by blast

lemma float_literal_quarter: "float_literal (1 / 4) = PFloat (Finite (1 / 4))"
  using rv_quarter by (simp add: float_literal_def rnd_Finite)



lemma dev_r_sym:
  assumes "\<bar>a1 - 180\<bar> = \<bar>a2 - 180\<bar>" shows "dev_r a1 = dev_r a2"
  using assms unfolding dev_r_def rnd_val_abs [symmetric] by simp







lemma min_subnormal_small: "min_subnormal < 2 ^ 1024"
  by (simp add: min_subnormal_def)





section \<open>The estimator at particular inputs\<close>

text \<open>
  Each rounding below is certified by its binade and its integer significand.
\<close>

lemma rv_lit_4_8: "rnd_val (24 / 5) = 5404319552844595 / 1125899906842624"
  by (rule rnd_val_cert [where e = 2 and n = 5404319552844595, THEN trans]) simp_all


lemma rv_lit_23_328: "rnd_val (2916 / 125) = 6566248256706183 / 281474976710656"
  by (rule rnd_val_cert [where e = "4" and n = 6566248256706183, THEN trans]) simp_all

lemma rv_lit_699_84: "rnd_val (17496 / 25) = 6155857740662047 / 8796093022208"
  by (rule rnd_val_cert [where e = "9" and n = 6155857740662047, THEN trans]) simp_all

lemma rv_lit_0_825: "rnd_val (33 / 40) = 3715469692580659 / 4503599627370496"
  by (rule rnd_val_cert [where e = "- 1" and n = 7430939385161318, THEN trans]) simp_all

lemma rv_s_1: "rnd_val (1) = 1"
  by (rule rnd_val_cert [where e = "0" and n = 4503599627370496, THEN trans]) simp_all

lemma rv_s_2: "rnd_val (8106479329266893 / 9007199254740992) = 8106479329266893 / 9007199254740992"
  by (rule rnd_val_cert [where e = "- 1" and n = 8106479329266893, THEN trans]) simp_all

lemma rv_s_3: "rnd_val (5404319552844595 / 9007199254740992) = 5404319552844595 / 9007199254740992"
  by (rule rnd_val_cert [where e = "- 1" and n = 5404319552844595, THEN trans]) simp_all

lemma rv_s_4: "rnd_val (3 / 2) = 3 / 2"
  by (rule rnd_val_cert [where e = "0" and n = 6755399441055744, THEN trans]) simp_all

lemma rv_s_5: "rnd_val (48638875975601355 / 562949953421312) = 6079859496950169 / 70368744177664"
  by (rule rnd_val_cert [where e = "6" and n = 6079859496950169, THEN trans]) simp_all

lemma rv_s_6: "rnd_val (19714502134749420976938549591933 / 1267650600228229401496703205376) = 8754997675608243 / 562949953421312"
  by (rule rnd_val_cert [where e = "3" and n = 8754997675608243, THEN trans]) simp_all

lemma rv_s_7: "rnd_val (26264993026824729 / 1125899906842624) = 3283124128353091 / 140737488355328"
  by (rule rnd_val_cert [where e = "4" and n = 6566248256706182, THEN trans]) simp_all

lemma rv_s_8: "rnd_val (49246861925296365 / 70368744177664) = 3077928870331023 / 4398046511104"
  by (rule rnd_val_cert [where e = "9" and n = 6155857740662046, THEN trans]) simp_all

lemma rv_s_9: "rnd_val (100) = 100"
  by (rule rnd_val_cert [where e = "6" and n = 7036874417766400, THEN trans]) simp_all

lemma scenario_south_locals:
  "compute_locals \<lparr>tilt = Finite (30), azimuth = Finite (180), irradiance = rnd (48 / 10), area = Finite (18)\<rparr>
   = Inr \<lparr>tiltFactor = PFloat (Finite (1)), facingSouthFactor = PFloat (Finite (1)),
          k = PFloat (Finite (3 / 2)),
          dailyKWh = PFloat (Finite (3283124128353091 / 140737488355328)),
          monthlyKWh = PFloat (Finite (3077928870331023 / 4398046511104)),
          score_local = 100\<rparr>"
  by (simp add: compute_locals_valid [where t = "30" and a = "180"] clamp0_def daily_d_def k_r_def tf_r_def fs_r_def dev_r_def score_r_def pct_r_def
      d0_9_def d0_6_def d0_18_def min_subnormal_def rnd_Finite rnd_val_minus rv_lit_4_8
      rv_s_1 rv_s_2 rv_s_3 rv_s_4 rv_s_5 rv_s_6 rv_s_7 rv_s_8 rv_s_9)

lemma scenario_south_energy:
  "compute_energy \<lparr>tilt = Finite (30), azimuth = Finite (180), irradiance = rnd (48 / 10), area = Finite (18)\<rparr>
   = Inr \<lparr>daily = Finite (3283124128353091 / 140737488355328), monthly = Finite (3077928870331023 / 4398046511104), score = 100\<rparr>"
  by (simp add: compute_energy_valid [where t = "30" and a = "180"] clamp0_def daily_d_def k_r_def tf_r_def fs_r_def dev_r_def score_r_def pct_r_def
      d0_9_def d0_6_def d0_18_def min_subnormal_def rnd_Finite rnd_val_minus rv_lit_4_8
      rv_s_1 rv_s_2 rv_s_3 rv_s_4 rv_s_5 rv_s_6 rv_s_7 rv_s_8 rv_s_9)

lemma rv_z_1: "rnd_val (30) = 30"
  by (rule rnd_val_cert [where e = "4" and n = 8444249301319680, THEN trans]) simp_all

lemma rv_z_2: "rnd_val (1 / 4) = 1 / 4"
  by (rule rnd_val_cert [where e = "- 2" and n = 4503599627370496, THEN trans]) simp_all

lemma rv_z_3: "rnd_val (3 / 4) = 3 / 4"
  by (rule rnd_val_cert [where e = "- 1" and n = 6755399441055744, THEN trans]) simp_all

lemma rv_z_4: "rnd_val (180) = 180"
  by (rule rnd_val_cert [where e = "7" and n = 6333186975989760, THEN trans]) simp_all

lemma rv_z_5: "rnd_val (24319437987800679 / 36028797018963968) = 3039929748475085 / 4503599627370496"
  by (rule rnd_val_cert [where e = "- 1" and n = 6079859496950170, THEN trans]) simp_all

lemma rv_z_6: "rnd_val (5404319552844595 / 36028797018963968) = 5404319552844595 / 36028797018963968"
  by (rule rnd_val_cert [where e = "- 3" and n = 5404319552844595, THEN trans]) simp_all

lemma rv_z_7: "rnd_val (29723757540645275 / 36028797018963968) = 7430939385161319 / 9007199254740992"
  by (rule rnd_val_cert [where e = "- 1" and n = 7430939385161319, THEN trans]) simp_all

lemma rv_z_8: "rnd_val (2476979795053773 / 4503599627370496) = 2476979795053773 / 4503599627370496"
  by (rule rnd_val_cert [where e = "- 1" and n = 4953959590107546, THEN trans]) simp_all

lemma rv_z_9: "rnd_val (61924494876344325 / 1125899906842624) = 7740561859543041 / 140737488355328"
  by (rule rnd_val_cert [where e = "5" and n = 7740561859543041, THEN trans]) simp_all

lemma scenario_zero_round: "rhe (7740561859543041 / 140737488355328) = 55"
  by (rule rhe_eqI) simp

lemma scenario_zero_locals:
  "compute_locals \<lparr>tilt = Finite (0), azimuth = Finite (0), irradiance = Finite 0, area = Finite (0)\<rparr>
   = Inr \<lparr>tiltFactor = PFloat (Finite (3 / 4)), facingSouthFactor = PFloat (Finite (1 / 4)),
          k = PFloat (Finite (7430939385161319 / 9007199254740992)),
          dailyKWh = PFloat (Finite (0)),
          monthlyKWh = PFloat (Finite (0)),
          score_local = 55\<rparr>"
  by (simp add: compute_locals_valid [where t = "0" and a = "0"] clamp0_def daily_d_def k_r_def tf_r_def fs_r_def dev_r_def score_r_def pct_r_def
      d0_9_def d0_6_def d0_18_def min_subnormal_def rnd_Finite rnd_val_minus rv_lit_4_8 scenario_zero_round
      rv_s_1 rv_s_2 rv_s_3 rv_s_4 rv_s_5 rv_s_6 rv_s_7 rv_s_8 rv_s_9 rv_z_1 rv_z_2 rv_z_3 rv_z_4 rv_z_5 rv_z_6 rv_z_7 rv_z_8 rv_z_9)

lemma scenario_zero_energy:
  "compute_energy \<lparr>tilt = Finite (0), azimuth = Finite (0), irradiance = Finite 0, area = Finite (0)\<rparr>
   = Inr \<lparr>daily = Finite (0), monthly = Finite (0), score = 55\<rparr>"
  by (simp add: compute_energy_valid [where t = "0" and a = "0"] clamp0_def daily_d_def k_r_def tf_r_def fs_r_def dev_r_def score_r_def pct_r_def
      d0_9_def d0_6_def d0_18_def min_subnormal_def rnd_Finite rnd_val_minus rv_lit_4_8 scenario_zero_round
      rv_s_1 rv_s_2 rv_s_3 rv_s_4 rv_s_5 rv_s_6 rv_s_7 rv_s_8 rv_s_9 rv_z_1 rv_z_2 rv_z_3 rv_z_4 rv_z_5 rv_z_6 rv_z_7 rv_z_8 rv_z_9)

lemma rv_u_1: "rnd_val (1 / 202402253307310618352495346718917307049556649764142118356901358027430339567995346891960383701437124495187077864316811911389808737385793476867013399940738509921517424276566361364466907742093216341239767678472745068562007483424692698618103355649159556340810056512358769552333414615230502532186327508646006263307707741093494784) = 1 / 202402253307310618352495346718917307049556649764142118356901358027430339567995346891960383701437124495187077864316811911389808737385793476867013399940738509921517424276566361364466907742093216341239767678472745068562007483424692698618103355649159556340810056512358769552333414615230502532186327508646006263307707741093494784"
  by (rule rnd_val_cert [where e = "- 1022" and n = 1, THEN trans]) simp_all

lemma rv_u_2: "rnd_val (3242591731706757 / 3646154850295011369707131011438711095400799139943170490872585628683549034362552065955809589514611470241298944167703929337528884908857116141935206466329731088046102104871310118026124429524895811057809162863601918344981537942578416978660114536064864566618194697491810552574682390899399042017045361314411594716462268422176512674372084045971456) = 0"
  by (rule rnd_val_cert [where e = "- 1022" and n = 0, THEN trans]) simp_all

lemma scenario_underflow_round: "rhe (7740561859543041 / 140737488355328) = 55"
  by (rule rhe_eqI) simp

lemma scenario_underflow_locals:
  "compute_locals \<lparr>tilt = Finite (0), azimuth = Finite (0), irradiance = Finite min_subnormal, area = Finite (1)\<rparr>
   = Inr \<lparr>tiltFactor = PFloat (Finite (3 / 4)), facingSouthFactor = PFloat (Finite (1 / 4)),
          k = PFloat (Finite (7430939385161319 / 9007199254740992)),
          dailyKWh = PFloat (Finite (0)),
          monthlyKWh = PFloat (Finite (0)),
          score_local = 55\<rparr>"
  by (simp add: compute_locals_valid [where t = "0" and a = "0"] clamp0_def daily_d_def k_r_def tf_r_def fs_r_def dev_r_def score_r_def pct_r_def
      d0_9_def d0_6_def d0_18_def min_subnormal_def rnd_Finite rnd_val_minus rv_lit_4_8 scenario_underflow_round
      rv_s_1 rv_s_2 rv_s_3 rv_s_4 rv_s_5 rv_s_6 rv_s_7 rv_s_8 rv_s_9 rv_u_1 rv_u_2 rv_z_1 rv_z_2 rv_z_3 rv_z_4 rv_z_5 rv_z_6 rv_z_7 rv_z_8 rv_z_9)







section \<open>The formula of the specification on valid input\<close>

lemma rnd_literals:
  "rnd (9 / 10) = Finite d0_9" "rnd (6 / 10) = Finite d0_6" "rnd (18 / 100) = Finite d0_18"
  "rnd (5 / 10) = Finite (1 / 2)" "rnd (15 / 10) = Finite (3 / 2)"
  using float_literal_consts by (simp_all add: float_literal_def)

lemma spec_max_0: "spec_max (Finite 0) x = clamp0 x"
  by (cases x) (auto simp: spec_max_def clamp0_def fle_def)

lemma spec_energy_valid:
  assumes t: "tilt inp = Finite t" "0 \<le> t" "t \<le> 90"
    and a: "azimuth inp = Finite a" "0 \<le> a" "a \<le> 360"
  shows "spec_energy inp = Some
     \<lparr>daily = clamp0 (daily_d (irradiance inp) (area inp) (k_r t a)),
      monthly = clamp0 (fmul (daily_d (irradiance inp) (area inp) (k_r t a)) (Finite 30)),
      score = score_r (k_r t a)\<rparr>"
proof -
  define t1 where "t1 = rnd_val (t - 30)"
  define t2 where "t2 = rnd_val (\<bar>t1\<bar> / 120)"
  define a1 where "a1 = rnd_val (a - 180)"
  define a2 where "a2 = rnd_val (\<bar>a1\<bar> / 240)"
  define k1 where "k1 = rnd_val (tf_r t * d0_9)"
  define k2 where "k2 = rnd_val (fs_r a * d0_6)"
  define s1 where "s1 = rnd_val (k_r t a / (3 / 2))"
  have tf: "tf_r t = rnd_val (1 - t2)"
    by (simp add: tf_r_def t2_def t1_def)
  have fs: "fs_r a = rnd_val (1 - a2)"
    by (simp add: fs_r_def dev_r_def a2_def a1_def)
  have kr: "k_r t a = rnd_val (k1 + k2)"
    by (simp add: k_r_def k1_def k2_def)
  have pct: "pct_r (k_r t a) = rnd_val (s1 * 100)"
    by (simp add: pct_r_def s1_def)
  have tfb: "1 / 2 \<le> tf_r t" "tf_r t \<le> 1"
    using tf_r_bounds t(2,3) by simp_all
  have fsb: "1 / 4 \<le> fs_r a" "fs_r a \<le> 1"
    using fs_r_bounds a(2,3) by simp_all
  have kb: "d0_6 \<le> k_r t a" "k_r t a \<le> 3 / 2"
    using k_r_bounds t(2,3) a(2,3) by simp_all
  have t1b: "\<bar>t1\<bar> \<le> 60"
    unfolding t1_def using t(2,3) by (intro rnd_val_abs_le rv_60) (simp add: abs_le_iff)
  have a1b: "\<bar>a1\<bar> \<le> 180"
    using dev_r_bounds(2) [OF a(2,3)] by (simp add: dev_r_def a1_def)
  have t2b: "\<bar>t2\<bar> \<le> 1"
    unfolding t2_def using t1b by (intro rnd_val_abs_le rv_1) simp
  have a2b: "\<bar>a2\<bar> \<le> 1"
    unfolding a2_def using a1b by (intro rnd_val_abs_le rv_1) simp
  have m1: "\<bar>tf_r t * d0_9\<bar> \<le> 1"
    using tfb by (simp add: abs_mult d0_9_def mult_le_one)
  have m2: "\<bar>fs_r a * d0_6\<bar> \<le> 1"
    using fsb by (simp add: abs_mult d0_6_def mult_le_one)
  have k1b: "\<bar>k1\<bar> \<le> 1"
    unfolding k1_def using m1 rv_1 by (rule rnd_val_abs_le)
  have k2b: "\<bar>k2\<bar> \<le> 1"
    unfolding k2_def using m2 rv_1 by (rule rnd_val_abs_le)
  have s1b: "\<bar>s1\<bar> \<le> 1"
    unfolding s1_def using kb d0_6_pos
    by (intro rnd_val_abs_le rv_1) simp
  have f1: "fsub (tilt inp) (Finite 30) = Finite t1"
    using t by (simp add: fsub_Finite t1_def abs_le_iff)
  have f2: "spec_div (fabs (Finite t1)) (Finite 120) = Finite t2"
    using t1b by (simp add: spec_div_def rnd_Finite t2_def)
  have f3: "fsub (Finite 1) (Finite t2) = Finite (tf_r t)"
    using t2b by (simp add: fsub_Finite tf abs_le_iff)
  have f4: "fsub (azimuth inp) (Finite 180) = Finite a1"
    using a by (simp add: fsub_Finite a1_def abs_le_iff)
  have f5: "spec_min (fabs (Finite a1)) (Finite 180) = Finite \<bar>a1\<bar>"
    using a1b by (simp add: spec_min_def)
  have f6: "spec_div (Finite \<bar>a1\<bar>) (Finite 240) = Finite a2"
    using a1b by (simp add: spec_div_def rnd_Finite a2_def)
  have f7: "fsub (Finite 1) (Finite a2) = Finite (fs_r a)"
    using a2b by (simp add: fsub_Finite fs abs_le_iff)
  have f8: "fmul (Finite (tf_r t)) (rnd (9 / 10)) = Finite k1"
    using m1 by (simp only: rnd_literals) (simp add: rnd_Finite k1_def)
  have f9: "fmul (Finite (fs_r a)) (rnd (6 / 10)) = Finite k2"
    using m2 by (simp only: rnd_literals) (simp add: rnd_Finite k2_def)
  have f10: "fadd (Finite k1) (Finite k2) = Finite (k_r t a)"
    using k1b k2b by (simp add: rnd_Finite kr)
  have f11: "spec_max (rnd (5 / 10)) (Finite (k_r t a)) = Finite (k_r t a)"
    using kb d0_6_gt_half by (simp only: rnd_literals) (simp add: spec_max_def)
  have f12: "fmul (fmul (fmul (irradiance inp) (area inp)) (rnd (18 / 100))) (Finite (k_r t a))
      = daily_d (irradiance inp) (area inp) (k_r t a)"
    by (simp only: rnd_literals daily_d_def)
  have f13: "spec_div (Finite (k_r t a)) (rnd (15 / 10)) = Finite s1"
    using kb d0_6_pos by (simp only: rnd_literals) (simp add: spec_div_def rnd_Finite s1_def)
  have f14: "fmul (Finite s1) (Finite 100) = Finite (pct_r (k_r t a))"
    using s1b by (simp add: rnd_Finite pct abs_mult)
  have f15: "spec_round (spec_min (Finite 100) (Finite (pct_r (k_r t a)))) = Some (score_r (k_r t a))"
    using pct_r_bounds [OF kb] by (auto simp: spec_round_def spec_min_def score_r_def)
  show ?thesis
    unfolding spec_energy_def
    by (simp only: f1 f2 f3 f4 f5 f6 f7 f8 f9 f10 f11 f12 f13 f14 f15 spec_max_0 Let_def
        option.case)
qed

section \<open>Validation of the payload\<close>

lemma field_cases:
  "field d ok v = (case v of None \<Rightarrow> Some d | Some x \<Rightarrow> if ok x then Some x else None)"
  by (simp add: field_def)






section \<open>Lemmas for the scenarios of the claims\<close>

lemma valid_example:
  "valid_EnergyInput \<lparr>tilt = Finite 25, azimuth = Finite 180, irradiance = Finite 5, area = Finite 18\<rparr>"
  by (simp add: valid_EnergyInput_def tilt_ok_def azimuth_ok_def irradiance_ok_def area_ok_def)









section \<open>The claims\<close>

text \<open>
  C1. On every valid \<open>EnergyInput\<close>, \<open>compute_energy\<close> returns, without raising, exactly the
  output of the seven-step formula of the specification, evaluated in binary64 arithmetic.
\<close>

theorem compute_energy_is_formula:
  assumes "valid_EnergyInput inp"
  shows "\<exists>out. compute_energy inp = Inr out \<and> spec_energy inp = Some out"
proof -
  from assms obtain t a where ta: "tilt inp = Finite t" "0 \<le> t" "t \<le> 90"
    "azimuth inp = Finite a" "0 \<le> a" "a \<le> 360"
    by (rule valid_EnergyInputE)
  show ?thesis
    unfolding compute_energy_valid [OF ta] spec_energy_valid [OF ta] by blast
qed

theorem compute_energy_is_formula_witness:
  "valid_EnergyInput 
     \<lparr>tilt = Finite 25, azimuth = Finite 180, irradiance = Finite 5, area = Finite 18\<rparr> \<and>
   (\<exists>out. compute_energy 
     \<lparr>tilt = Finite 25, azimuth = Finite 180, irradiance = Finite 5, area = Finite 18\<rparr> = Inr out \<and> spec_energy 
     \<lparr>tilt = Finite 25, azimuth = Finite 180, irradiance = Finite 5, area = Finite 18\<rparr> = Some out)"
  using valid_example compute_energy_is_formula [OF valid_example] by (rule conjI)

text \<open>
  C2. On every valid \<open>EnergyInput\<close> the output satisfies \<open>daily >= 0\<close>, \<open>monthly >= 0\<close> and
  \<open>monthly == daily * 30\<close>, the product and the comparison being those of the floats.
\<close>

theorem energy_nonneg_and_monthly:
  assumes "valid_EnergyInput inp"
  shows "\<exists>out. compute_energy inp = Inr out \<and>
           fle (Finite 0) (daily out) \<and> fle (Finite 0) (monthly out) \<and>
           feq (monthly out) (fmul (daily out) (Finite 30))"
proof -
  from assms obtain t a where ta: "tilt inp = Finite t" "0 \<le> t" "t \<le> 90"
    "azimuth inp = Finite a" "0 \<le> a" "a \<le> 360"
    by (rule valid_EnergyInputE)
  obtain x y where "daily_d (irradiance inp) (area inp) (k_r t a) = fmul x y"
    using daily_d_fmul by blast
  then have "feq (clamp0 (fmul (daily_d (irradiance inp) (area inp) (k_r t a)) (Finite 30)))
      (fmul (clamp0 (daily_d (irradiance inp) (area inp) (k_r t a))) (Finite 30))"
    by (rule monthly_of_daily)
  then show ?thesis
    unfolding compute_energy_valid [OF ta] by (simp add: clamp0_nonneg)
qed

theorem energy_nonneg_and_monthly_witness:
  "valid_EnergyInput 
     \<lparr>tilt = Finite 25, azimuth = Finite 180, irradiance = Finite 5, area = Finite 18\<rparr> \<and>
   (\<exists>out. compute_energy 
     \<lparr>tilt = Finite 25, azimuth = Finite 180, irradiance = Finite 5, area = Finite 18\<rparr> = Inr out \<and>
      fle (Finite 0) (daily out) \<and> fle (Finite 0) (monthly out) \<and>
      feq (monthly out) (fmul (daily out) (Finite 30)))"
  using valid_example energy_nonneg_and_monthly [OF valid_example] by (rule conjI)

text \<open>
  C3. On every valid \<open>EnergyInput\<close> the score is an integer between 0 and 100.
\<close>

theorem score_in_range:
  assumes "valid_EnergyInput inp"
  shows "\<exists>out. compute_energy inp = Inr out \<and> 0 \<le> score out \<and> score out \<le> 100"
proof -
  from assms obtain t a where ta: "tilt inp = Finite t" "0 \<le> t" "t \<le> 90"
    "azimuth inp = Finite a" "0 \<le> a" "a \<le> 360"
    by (rule valid_EnergyInputE)
  have "40 \<le> score_r (k_r t a)" "score_r (k_r t a) \<le> 100"
    using score_r_bounds k_r_bounds ta by simp_all
  then show ?thesis
    unfolding compute_energy_valid [OF ta] by simp
qed

theorem score_in_range_witness:
  "valid_EnergyInput 
     \<lparr>tilt = Finite 25, azimuth = Finite 180, irradiance = Finite 5, area = Finite 18\<rparr> \<and>
   (\<exists>out. compute_energy 
     \<lparr>tilt = Finite 25, azimuth = Finite 180, irradiance = Finite 5, area = Finite 18\<rparr> = Inr out \<and> 0 \<le> score out \<and> score out \<le> 100)"
  using valid_example score_in_range [OF valid_example] by (rule conjI)







text \<open>
  C6. Two valid inputs whose azimuths are equidistant from 180 (such as 90 and 270) and whose
  tilt, irradiance and area are equal have the same \<open>facingSouthFactor\<close>, and
  \<open>compute_energy\<close> returns the same output for both.
\<close>

theorem azimuth_symmetry:
  assumes "valid_EnergyInput inp1" "valid_EnergyInput inp2"
    and "azimuth inp1 = Finite a1" "azimuth inp2 = Finite a2" "\<bar>a1 - 180\<bar> = \<bar>a2 - 180\<bar>"
    and "tilt inp2 = tilt inp1" "irradiance inp2 = irradiance inp1" "area inp2 = area inp1"
  shows "\<exists>l1 l2 out.
           compute_locals inp1 = Inr l1 \<and> compute_locals inp2 = Inr l2 \<and>
           facingSouthFactor l1 = facingSouthFactor l2 \<and>
           compute_energy inp1 = Inr out \<and> compute_energy inp2 = Inr out"
proof -
  from assms(1) obtain t a where ta: "tilt inp1 = Finite t" "0 \<le> t" "t \<le> 90"
    "azimuth inp1 = Finite a" "0 \<le> a" "a \<le> 360"
    by (rule valid_EnergyInputE)
  from assms(2) obtain t' a' where ta': "tilt inp2 = Finite t'" "0 \<le> t'" "t' \<le> 90"
    "azimuth inp2 = Finite a'" "0 \<le> a'" "a' \<le> 360"
    by (rule valid_EnergyInputE)
  have eq: "a = a1" "a' = a2" "t' = t"
    using ta ta' assms by simp_all
  have fs: "fs_r a' = fs_r a"
    using dev_r_sym [OF assms(5)] by (simp add: fs_r_def eq)
  then have kr: "k_r t a' = k_r t a"
    by (simp add: k_r_def)
  show ?thesis
    unfolding compute_energy_valid [OF ta] compute_locals_valid [OF ta]
      compute_energy_valid [OF ta'] compute_locals_valid [OF ta'] eq(3) assms(7,8) fs kr
    by simp
qed

theorem azimuth_symmetry_witness:
  "valid_EnergyInput 
     \<lparr>tilt = Finite 25, azimuth = Finite 90, irradiance = Finite 5, area = Finite 18\<rparr> \<and>
   valid_EnergyInput 
     \<lparr>tilt = Finite 25, azimuth = Finite 270, irradiance = Finite 5, area = Finite 18\<rparr> \<and>
   \<bar>90 - 180\<bar> = \<bar>270 - (180 :: rat)\<bar> \<and>
   (\<exists>l1 l2 out.
      compute_locals 
     \<lparr>tilt = Finite 25, azimuth = Finite 90, irradiance = Finite 5, area = Finite 18\<rparr> = Inr l1 \<and>
      compute_locals 
     \<lparr>tilt = Finite 25, azimuth = Finite 270, irradiance = Finite 5, area = Finite 18\<rparr> = Inr l2 \<and>
      facingSouthFactor l1 = facingSouthFactor l2 \<and>
      compute_energy 
     \<lparr>tilt = Finite 25, azimuth = Finite 90, irradiance = Finite 5, area = Finite 18\<rparr> = Inr out \<and>
      compute_energy 
     \<lparr>tilt = Finite 25, azimuth = Finite 270, irradiance = Finite 5, area = Finite 18\<rparr> = Inr out)"
proof -
  have v1: "valid_EnergyInput 
     \<lparr>tilt = Finite 25, azimuth = Finite 90, irradiance = Finite 5, area = Finite 18\<rparr>"
    by (simp add: valid_EnergyInput_def tilt_ok_def azimuth_ok_def irradiance_ok_def area_ok_def)
  have v2: "valid_EnergyInput 
     \<lparr>tilt = Finite 25, azimuth = Finite 270, irradiance = Finite 5, area = Finite 18\<rparr>"
    by (simp add: valid_EnergyInput_def tilt_ok_def azimuth_ok_def irradiance_ok_def area_ok_def)
  have d: "\<bar>90 - 180\<bar> = \<bar>270 - (180 :: rat)\<bar>"
    by simp
  show ?thesis
    using v1 v2 d azimuth_symmetry [OF v1 v2, where ?a1.0 = 90 and ?a2.0 = 270]
    by simp
qed

text \<open>
  C7, as stated, fails: for \<open>tilt = 30\<close>, \<open>azimuth = 180\<close>, \<open>irradiance = 4.8\<close>, \<open>area = 18\<close> the
  returned \<open>daily\<close> and \<open>monthly\<close> are not the doubles \<open>23.328\<close> and \<open>699.84\<close> but their
  predecessors, and for the all-zero input \<open>k\<close> is not the double \<open>0.825\<close> but its successor.
\<close>

theorem boundary_scenarios_counterexample:
  "compute_energy 
     \<lparr>tilt = Finite (30), azimuth = Finite (180), irradiance = rnd (48 / 10), area = Finite (18)\<rparr>
     = Inr \<lparr>daily = Finite (3283124128353091 / 140737488355328), monthly = Finite (3077928870331023 / 4398046511104), score = 100\<rparr> \<and>
   Finite (3283124128353091 / 140737488355328) \<noteq> rnd (23328 / 1000) \<and>
   Finite (3077928870331023 / 4398046511104) \<noteq> rnd (69984 / 100) \<and>
   compute_locals 
     \<lparr>tilt = Finite (0), azimuth = Finite (0), irradiance = Finite 0, area = Finite (0)\<rparr>
     = Inr \<lparr>tiltFactor = PFloat (Finite (3 / 4)), facingSouthFactor = PFloat (Finite (1 / 4)),
              k = PFloat (Finite (7430939385161319 / 9007199254740992)),
              dailyKWh = PFloat (Finite (0)),
              monthlyKWh = PFloat (Finite (0)),
              score_local = 55\<rparr> \<and>
   PFloat (Finite (7430939385161319 / 9007199254740992)) \<noteq> float_literal (825 / 1000)"
  using scenario_south_energy scenario_zero_locals rv_lit_23_328 rv_lit_699_84 rv_lit_0_825
  by (simp add: rnd_Finite float_literal_def)

text \<open>
  C7, amended. For \<open>tilt = 30\<close>, \<open>azimuth = 180\<close>, \<open>irradiance = 4.8\<close>, \<open>area = 18\<close> the function
  computes \<open>k = 1.5\<close> and returns \<open>daily = 23.327999999999996\<close>, \<open>monthly = 699.8399999999999\<close>
  (each one unit in the last place below the double nearest to \<open>23.328\<close> and \<open>699.84\<close>) and
  \<open>score = 100\<close>; for \<open>tilt = 0\<close>, \<open>azimuth = 0\<close>, \<open>irradiance = 0\<close>, \<open>area = 0\<close> it computes
  \<open>k = 0.8250000000000001\<close> and returns \<open>daily = 0\<close>, \<open>monthly = 0\<close>, \<open>score = 55\<close>.
\<close>

theorem boundary_scenarios:
  "compute_locals 
     \<lparr>tilt = Finite (30), azimuth = Finite (180), irradiance = rnd (48 / 10), area = Finite (18)\<rparr>
     = Inr \<lparr>tiltFactor = PFloat (Finite (1)), facingSouthFactor = PFloat (Finite (1)),
              k = PFloat (Finite (3 / 2)),
              dailyKWh = PFloat (Finite (3283124128353091 / 140737488355328)),
              monthlyKWh = PFloat (Finite (3077928870331023 / 4398046511104)),
              score_local = 100\<rparr> \<and>
   compute_energy 
     \<lparr>tilt = Finite (30), azimuth = Finite (180), irradiance = rnd (48 / 10), area = Finite (18)\<rparr>
     = Inr \<lparr>daily = Finite (3283124128353091 / 140737488355328), monthly = Finite (3077928870331023 / 4398046511104), score = 100\<rparr> \<and>
   compute_locals 
     \<lparr>tilt = Finite (0), azimuth = Finite (0), irradiance = Finite 0, area = Finite (0)\<rparr>
     = Inr \<lparr>tiltFactor = PFloat (Finite (3 / 4)), facingSouthFactor = PFloat (Finite (1 / 4)),
              k = PFloat (Finite (7430939385161319 / 9007199254740992)),
              dailyKWh = PFloat (Finite (0)),
              monthlyKWh = PFloat (Finite (0)),
              score_local = 55\<rparr> \<and>
   compute_energy 
     \<lparr>tilt = Finite (0), azimuth = Finite (0), irradiance = Finite 0, area = Finite (0)\<rparr>
     = Inr \<lparr>daily = Finite (0), monthly = Finite (0), score = 55\<rparr>"
  using scenario_south_locals scenario_south_energy scenario_zero_locals scenario_zero_energy
  by simp



text \<open>
  C9. On every valid \<open>EnergyInput\<close>, \<open>tiltFactor\<close> lies in \<open>[0.5, 1]\<close> and \<open>facingSouthFactor\<close> in
  \<open>[0.25, 1]\<close>; \<open>k\<close> is the weighted sum \<open>tiltFactor * 0.9 + facingSouthFactor * 0.6\<close> itself,
  which is greater than the floor \<open>0.5\<close>, so the floor is never selected; \<open>k\<close> lies in
  \<open>[0.6, 1.5]\<close> and the score is at least 40. The bounds are comparisons of floats: \<open>0.6\<close> is
  the double that the literal denotes.
\<close>

theorem factor_ranges:
  assumes "valid_EnergyInput inp"
  shows "\<exists>l out. compute_locals inp = Inr l \<and> compute_energy inp = Inr out \<and>
           py_le (float_literal (5 / 10)) (tiltFactor l) \<and> py_le (tiltFactor l) (PInt 1) \<and>
           py_le (float_literal (25 / 100)) (facingSouthFactor l) \<and>
           py_le (facingSouthFactor l) (PInt 1) \<and>
           py_bind (py_mul (tiltFactor l) (float_literal (9 / 10))) (\<lambda>x.
             py_bind (py_mul (facingSouthFactor l) (float_literal (6 / 10))) (\<lambda>y. py_add x y))
             = Inr (k l) \<and>
           py_lt (float_literal (5 / 10)) (k l) \<and>
           py_le (float_literal (6 / 10)) (k l) \<and> py_le (k l) (float_literal (15 / 10)) \<and>
           40 \<le> score out"
proof -
  from assms obtain t a where ta: "tilt inp = Finite t" "0 \<le> t" "t \<le> 90"
    "azimuth inp = Finite a" "0 \<le> a" "a \<le> 360"
    by (rule valid_EnergyInputE)
  have tfb: "1 / 2 \<le> tf_r t" "tf_r t \<le> 1"
    using tf_r_bounds ta by simp_all
  have fsb: "1 / 4 \<le> fs_r a" "fs_r a \<le> 1"
    using fs_r_bounds ta by simp_all
  have kb: "d0_6 \<le> k_r t a" "k_r t a \<le> 3 / 2"
    using k_r_bounds ta by simp_all
  have sb: "40 \<le> score_r (k_r t a)"
    using score_r_bounds kb by simp
  have m1: "\<bar>tf_r t * d0_9\<bar> \<le> 1"
    using tfb by (simp add: abs_mult d0_9_def mult_le_one)
  have m2: "\<bar>fs_r a * d0_6\<bar> \<le> 1"
    using fsb by (simp add: abs_mult d0_6_def mult_le_one)
  have m3: "\<bar>rnd_val (tf_r t * d0_9) + rnd_val (fs_r a * d0_6)\<bar> \<le> 2"
    using rnd_val_abs_le [OF m1 rv_1] rnd_val_abs_le [OF m2 rv_1] by linarith
  define l where "l = \<lparr>tiltFactor = PFloat (Finite (tf_r t)),
      facingSouthFactor = PFloat (Finite (fs_r a)),
      k = PFloat (Finite (k_r t a)),
      dailyKWh = PFloat (daily_d (irradiance inp) (area inp) (k_r t a)),
      monthlyKWh = PFloat (fmul (daily_d (irradiance inp) (area inp) (k_r t a)) (Finite 30)),
      score_local = score_r (k_r t a)\<rparr>"
  define out where "out = \<lparr>daily = clamp0 (daily_d (irradiance inp) (area inp) (k_r t a)),
      monthly = clamp0 (fmul (daily_d (irradiance inp) (area inp) (k_r t a)) (Finite 30)),
      score = score_r (k_r t a)\<rparr>"
  have sel: "tiltFactor l = PFloat (Finite (tf_r t))"
    "facingSouthFactor l = PFloat (Finite (fs_r a))" "k l = PFloat (Finite (k_r t a))"
    "score out = score_r (k_r t a)"
    by (simp_all add: l_def out_def)
  have 1: "compute_locals inp = Inr l"
    unfolding l_def by (rule compute_locals_valid [OF ta])
  have 2: "compute_energy inp = Inr out"
    unfolding out_def by (rule compute_energy_valid [OF ta])
  have 3: "py_le (float_literal (5 / 10)) (tiltFactor l)" "py_le (tiltFactor l) (PInt 1)"
    using tfb by (simp_all add: sel float_literal_norm)
  have 4: "py_le (float_literal (25 / 100)) (facingSouthFactor l)"
    "py_le (facingSouthFactor l) (PInt 1)"
    using fsb by (simp_all add: sel float_literal_quarter)
  have 5: "py_bind (py_mul (tiltFactor l) (float_literal (9 / 10))) (\<lambda>x.
      py_bind (py_mul (facingSouthFactor l) (float_literal (6 / 10))) (\<lambda>y. py_add x y))
      = Inr (k l)"
    using m1 m2 m3
    by (simp add: sel py_bind_def float_literal_consts float_literal_norm rnd_Finite k_r_def)
  have 6: "py_lt (float_literal (5 / 10)) (k l)" "py_le (float_literal (6 / 10)) (k l)"
    "py_le (k l) (float_literal (15 / 10))"
    using kb d0_6_gt_half by (simp_all add: sel float_literal_norm)
  have 7: "40 \<le> score out"
    using sb by (simp add: sel)
  show ?thesis
    using 1 2 3 4 5 6 7 by blast
qed

theorem factor_ranges_witness:
  "valid_EnergyInput 
     \<lparr>tilt = Finite 25, azimuth = Finite 180, irradiance = Finite 5, area = Finite 18\<rparr> \<and>
   (\<exists>l out. compute_locals 
     \<lparr>tilt = Finite 25, azimuth = Finite 180, irradiance = Finite 5, area = Finite 18\<rparr> = Inr l \<and>
      compute_energy 
     \<lparr>tilt = Finite 25, azimuth = Finite 180, irradiance = Finite 5, area = Finite 18\<rparr> = Inr out \<and>
      py_le (float_literal (5 / 10)) (tiltFactor l) \<and> py_le (tiltFactor l) (PInt 1) \<and>
      py_le (float_literal (25 / 100)) (facingSouthFactor l) \<and>
      py_le (facingSouthFactor l) (PInt 1) \<and>
      py_bind (py_mul (tiltFactor l) (float_literal (9 / 10))) (\<lambda>x.
        py_bind (py_mul (facingSouthFactor l) (float_literal (6 / 10))) (\<lambda>y. py_add x y))
        = Inr (k l) \<and>
      py_lt (float_literal (5 / 10)) (k l) \<and>
      py_le (float_literal (6 / 10)) (k l) \<and> py_le (k l) (float_literal (15 / 10)) \<and>
      40 \<le> score out)"
  using valid_example factor_ranges [OF valid_example] by (rule conjI)

section \<open>The subscription endpoint never fails\<close>

lemma persist_module_absent:
  "import_create_document env = Raises_Exception e \<Longrightarrow> persist env payload = Raises_Exception e"
  by (simp add: persist_def)

lemma persist_call:
  "import_create_document env = Returns f \<Longrightarrow>
   persist env payload = f ''subscriber'' [(''email'', email payload)]"
  by (simp add: persist_def)



end
